theory Spec2Isabelle
  imports Complex_Main
begin

section \<open>Swarm of point agents: geometry, behaviours, environment\<close>

text \<open>
  The development embeds \<^verbatim>\<open>agents.py\<close>, \<^verbatim>\<open>agent_creator.py\<close> and
  \<^verbatim>\<open>environment.py\<close>. Coordinates are numpy \<^verbatim>\<open>float64\<close> values in the source; they
  are idealised here as reals. Two effects of float64 are kept: numpy's \<^verbatim>\<open>nan\<close> from
  \<^verbatim>\<open>0.0 / 0.0\<close>, as an explicit outcome, and the rounding of the general case of the line
  intersection, where it does not stay small.
\<close>

subsection \<open>Two-component numpy vectors\<close>

type_synonym point = "real \<times> real"

definition vsub :: "point \<Rightarrow> point \<Rightarrow> point" where
  "vsub a b = (fst a - fst b, snd a - snd b)"

definition vadd :: "point \<Rightarrow> point \<Rightarrow> point" where
  "vadd a b = (fst a + fst b, snd a + snd b)"

definition smul :: "real \<Rightarrow> point \<Rightarrow> point" where
  "smul c a = (c * fst a, c * snd a)"

text \<open>\<^verbatim>\<open>a / c\<close> for an array \<^verbatim>\<open>a\<close> and a scalar \<^verbatim>\<open>c\<close>; every use below is guarded by
  \<open>c \<noteq> 0\<close>.\<close>

definition vdiv :: "point \<Rightarrow> real \<Rightarrow> point" where
  "vdiv a c = (fst a / c, snd a / c)"

text \<open>\<^verbatim>\<open>np.linalg.norm(a, 2)\<close> of a one-dimensional array.\<close>

definition norm2 :: "point \<Rightarrow> real" where
  "norm2 a = sqrt ((fst a)\<^sup>2 + (snd a)\<^sup>2)"

text \<open>The distance of the specification: the norm of the difference.\<close>

definition point_distance :: "point \<Rightarrow> point \<Rightarrow> real" where
  "point_distance a b = norm2 (vsub a b)"

text \<open>
  A point as numpy computes it: either two finite coordinates, or \<^verbatim>\<open>(nan, nan)\<close>.
  \<^verbatim>\<open>nan\<close> propagates through \<^verbatim>\<open>+ - * /\<close> and the norm, and every comparison with
  \<^verbatim>\<open>nan\<close> is false.
\<close>

datatype npvec = Vec point | NaN

subsection \<open>\<^verbatim>\<open>Agent._calculate_point_on_vector\<close>\<close>

definition calculate_point_on_vector :: "point \<Rightarrow> real \<Rightarrow> point \<Rightarrow> point" where
  "calculate_point_on_vector position step_size destination =
     (let v = position;
          u = destination;
          n = vsub v u;
          n_magnitude = norm2 n;
          n' = (if n_magnitude = 0 then (0, 0) else vdiv n n_magnitude);
          distance = min n_magnitude step_size
      in vsub v (smul distance n'))"

subsection \<open>The four \<^verbatim>\<open>_get_destination\<close> methods on real points\<close>

text \<open>\<^verbatim>\<open>ProtectiveAgent1._get_destination\<close>: the midpoint of friend and enemy.\<close>

definition protective1_get_destination :: "point \<Rightarrow> point \<Rightarrow> point" where
  "protective1_get_destination f e = ((fst f + fst e) / 2, (snd f + snd e) / 2)"

text \<open>
  The \<^verbatim>\<open>else\<close> block shared by \<^verbatim>\<open>ProtectiveAgent2\<close> (lines 185 to 209) and
  \<^verbatim>\<open>HidingAgent2\<close> (lines 309 to 333): vertical line, horizontal line, general case.
\<close>

definition line_intersection :: "point \<Rightarrow> point \<Rightarrow> point \<Rightarrow> point" where
  "line_intersection p f e =
     (if fst e - fst f = 0 then (fst e, snd p)
      else if snd e - snd f = 0 then (snd p, snd e)
      else
        (let m1 = (snd e - snd f) / (fst e - fst f);
             m2 = - 1 / m1;
             b1 = snd e - m1 * fst e;
             b2 = snd p - m2 * fst p;
             x = (b1 - b2) / (m2 - m1);
             y = m1 * x + b1
         in (x, y)))"

text \<open>
  The general case divides by \<^verbatim>\<open>e[0]-f[0]\<close>, which the source only tests against zero.
  \<open>line_intersection\<close> evaluates it in exact arithmetic. For a line that is nearly
  vertical the rounding of float64 does not stay small there, so the same lines are also
  given with every operation rounded as numpy rounds it: to the nearest number with a
  significand of 53 bits, ties to the even significand. The exponent is not bounded:
  overflow and subnormal numbers are not modelled.
\<close>

definition pow2 :: "int \<Rightarrow> real" where
  "pow2 k = (if 0 \<le> k then 2 ^ nat k else 1 / 2 ^ nat (- k))"

definition round_half_even :: "real \<Rightarrow> int" where
  "round_half_even q =
     (let fl = \<lfloor>q\<rfloor>; d = q - of_int fl in
      if d < 1 / 2 then fl else if 1 / 2 < d then fl + 1 else if even fl then fl else fl + 1)"

definition float64 :: "real \<Rightarrow> real" where
  "float64 x =
     (if x = 0 then 0
      else (let ex = \<lfloor>log 2 \<bar>x\<bar>\<rfloor>; ulp = pow2 (ex - 52)
            in of_int (round_half_even (x / ulp)) * ulp))"

definition fadd :: "real \<Rightarrow> real \<Rightarrow> real" where
  "fadd a b = float64 (a + b)"

definition fsub :: "real \<Rightarrow> real \<Rightarrow> real" where
  "fsub a b = float64 (a - b)"

definition fmul :: "real \<Rightarrow> real \<Rightarrow> real" where
  "fmul a b = float64 (a * b)"

definition fdiv :: "real \<Rightarrow> real \<Rightarrow> real" where
  "fdiv a b = float64 (a / b)"

text \<open>Lines 198 to 207 in float64 arithmetic.\<close>

definition general_case_float64 :: "point \<Rightarrow> point \<Rightarrow> point \<Rightarrow> point" where
  "general_case_float64 p f e =
     (let m1 = fdiv (fsub (snd e) (snd f)) (fsub (fst e) (fst f));
          m2 = fdiv (- 1) m1;
          b1 = fsub (snd e) (fmul m1 (fst e));
          b2 = fsub (snd p) (fmul m2 (fst p));
          x = fdiv (fsub b1 b2) (fsub m2 m1);
          y = fadd (fmul m1 x) b1
      in (x, y))"

text \<open>The two obtuse-angle tests of lines 176 and 179 (and 306 and 335).\<close>

definition behind_friend :: "point \<Rightarrow> point \<Rightarrow> point \<Rightarrow> bool" where
  "behind_friend p f e =
     ((norm2 (vsub e p))\<^sup>2 > (norm2 (vsub f e))\<^sup>2 + (norm2 (vsub f p))\<^sup>2)"

definition behind_enemy :: "point \<Rightarrow> point \<Rightarrow> point \<Rightarrow> bool" where
  "behind_enemy p f e =
     ((norm2 (vsub f p))\<^sup>2 > (norm2 (vsub f e))\<^sup>2 + (norm2 (vsub e p))\<^sup>2)"

text \<open>\<^verbatim>\<open>ProtectiveAgent2._get_destination\<close>.\<close>

definition protective2_get_destination :: "point \<Rightarrow> point \<Rightarrow> point \<Rightarrow> point" where
  "protective2_get_destination p f e =
     (if behind_friend p f e then f
      else if behind_enemy p f e then e
      else line_intersection p f e)"

text \<open>
  \<^verbatim>\<open>HidingAgent1._get_destination\<close>. The division \<^verbatim>\<open>v / np.linalg.norm(v, 2)\<close> is not
  guarded: when the norm is zero, \<open>v\<close> is the zero vector, numpy evaluates \<^verbatim>\<open>0.0 / 0.0\<close>
  to \<^verbatim>\<open>nan\<close> in both components (a RuntimeWarning, no exception), \<^verbatim>\<open>point\<close> and
  \<^verbatim>\<open>d_ep\<close> are \<^verbatim>\<open>nan\<close>, the test \<^verbatim>\<open>d_fe > d_ep\<close> is false, and \<^verbatim>\<open>(nan, nan)\<close> is returned.
\<close>

definition hiding1_get_destination :: "real \<Rightarrow> point \<Rightarrow> point \<Rightarrow> npvec" where
  "hiding1_get_destination distance f e =
     (let v = vsub f e in
      if norm2 v = 0 then NaN
      else
        (let u = vdiv v (norm2 v);
             point = vadd f (smul distance u);
             d_fe = norm2 (vsub f e);
             d_ep = norm2 (vsub e point)
         in Vec (if d_fe > d_ep then vsub f (smul distance u) else point)))"

text \<open>\<^verbatim>\<open>HidingAgent2._get_destination\<close>.\<close>

definition hiding2_get_destination :: "point \<Rightarrow> point \<Rightarrow> point \<Rightarrow> point" where
  "hiding2_get_destination p f e =
     (if behind_friend p f e then line_intersection p f e
      else if behind_enemy p f e then f
      else f)"

subsection \<open>Agents\<close>

text \<open>
  The class of an agent; \<^verbatim>\<open>HidingAgent1\<close> carries its \<^verbatim>\<open>distance\<close>. An agent's
  \<^verbatim>\<open>friend\<close> and \<^verbatim>\<open>enemy\<close> are references to agent objects of the environment's list;
  they are modelled as indices into that list, and \<^verbatim>\<open>None\<close> as \<open>None\<close>.
\<close>

datatype agent_class = ProtectiveAgent1 | ProtectiveAgent2 | HidingAgent1 real | HidingAgent2

datatype error = AttributeError | TypeError | ValueError | IndexError

record agent =
  cls :: agent_class
  position :: npvec
  step_size :: real
  friend :: "nat option"
  enemy :: "nat option"
  friend_position :: "npvec option"
  enemy_position :: "npvec option"

text \<open>\<^verbatim>\<open>Agent.__init__\<close>, with the class of the object being constructed.\<close>

definition Agent_init :: "agent_class \<Rightarrow> real \<Rightarrow> real \<Rightarrow> real \<Rightarrow> agent" where
  "Agent_init c x y s =
     \<lparr>cls = c, position = Vec (x, y), step_size = s, friend = None, enemy = None,
      friend_position = None, enemy_position = None\<rparr>"

text \<open>
  \<^verbatim>\<open>_get_destination\<close> by class, for a finite own position and both snapshots present.
  A snapshot that is \<^verbatim>\<open>(nan, nan)\<close> makes every distance computed from it \<^verbatim>\<open>nan\<close>, so both
  obtuse tests are false. \<^verbatim>\<open>ProtectiveAgent2\<close> then reaches the general case of the
  intersection (\<^verbatim>\<open>nan == 0\<close> is false) and returns \<^verbatim>\<open>(nan, nan)\<close>; \<^verbatim>\<open>HidingAgent2\<close> reaches
  its last branch and returns the friend snapshot.
\<close>

fun get_destination :: "agent_class \<Rightarrow> point \<Rightarrow> npvec \<Rightarrow> npvec \<Rightarrow> npvec" where
  "get_destination ProtectiveAgent1 p (Vec f) (Vec e) = Vec (protective1_get_destination f e)"
| "get_destination ProtectiveAgent1 p _ _ = NaN"
| "get_destination ProtectiveAgent2 p (Vec f) (Vec e) = Vec (protective2_get_destination p f e)"
| "get_destination ProtectiveAgent2 p _ _ = NaN"
| "get_destination (HidingAgent1 distance) p (Vec f) (Vec e) = hiding1_get_destination distance f e"
| "get_destination (HidingAgent1 distance) p _ _ = NaN"
| "get_destination HidingAgent2 p (Vec f) (Vec e) = Vec (hiding2_get_destination p f e)"
| "get_destination HidingAgent2 p (Vec f) NaN = Vec f"
| "get_destination HidingAgent2 p NaN _ = NaN"

text \<open>
  \<^verbatim>\<open>ProtectiveAgent1._get_new_position\<close>, inherited by all four classes, with both
  snapshots present: the destination, then \<^verbatim>\<open>_calculate_point_on_vector\<close>. A \<^verbatim>\<open>nan\<close> in
  the own position or in the destination makes \<^verbatim>\<open>n\<close>, and with it the new position,
  \<^verbatim>\<open>(nan, nan)\<close>.
\<close>

definition new_position_of :: "agent_class \<Rightarrow> real \<Rightarrow> npvec \<Rightarrow> npvec \<Rightarrow> npvec \<Rightarrow> npvec" where
  "new_position_of c s pos fp ep =
     (case pos of
        NaN \<Rightarrow> NaN
      | Vec p \<Rightarrow>
          (case get_destination c p fp ep of
             NaN \<Rightarrow> NaN
           | Vec destination \<Rightarrow> Vec (calculate_point_on_vector p s destination)))"

text \<open>
  \<^verbatim>\<open>_get_new_position\<close> on an agent. Without a snapshot the field is \<^verbatim>\<open>None\<close>:
  \<^verbatim>\<open>ProtectiveAgent1\<close> subscripts it (TypeError); the other classes pass it to
  \<^verbatim>\<open>np.array(None, dtype=float)\<close>, a zero-dimensional \<^verbatim>\<open>nan\<close>. With both snapshots
  missing \<^verbatim>\<open>np.linalg.norm(_, 2)\<close> rejects the zero-dimensional difference (ValueError).
  With one missing, the difference broadcasts to \<^verbatim>\<open>(nan, nan)\<close>: \<^verbatim>\<open>ProtectiveAgent2\<close> then
  subscripts the zero-dimensional array (IndexError), \<^verbatim>\<open>HidingAgent1\<close> returns
  \<^verbatim>\<open>(nan, nan)\<close>, and \<^verbatim>\<open>HidingAgent2\<close> returns \<^verbatim>\<open>(f[0], f[1])\<close>, which is the friend snapshot
  when that one is present and an IndexError when it is the missing one.
\<close>

definition get_new_position :: "agent \<Rightarrow> error + npvec" where
  "get_new_position a =
     (case (friend_position a, enemy_position a) of
        (Some fp, Some ep) \<Rightarrow> Inr (new_position_of (cls a) (step_size a) (position a) fp ep)
      | (None, None) \<Rightarrow>
          (case cls a of ProtectiveAgent1 \<Rightarrow> Inl TypeError | _ \<Rightarrow> Inl ValueError)
      | (Some fp, None) \<Rightarrow>
          (case cls a of
             ProtectiveAgent1 \<Rightarrow> Inl TypeError
           | ProtectiveAgent2 \<Rightarrow> Inl IndexError
           | HidingAgent1 distance \<Rightarrow> Inr NaN
           | HidingAgent2 \<Rightarrow> Inr (new_position_of HidingAgent2 (step_size a) (position a) fp NaN))
      | (None, Some ep) \<Rightarrow>
          (case cls a of
             ProtectiveAgent1 \<Rightarrow> Inl TypeError
           | ProtectiveAgent2 \<Rightarrow> Inl IndexError
           | HidingAgent1 distance \<Rightarrow> Inr NaN
           | HidingAgent2 \<Rightarrow> Inl IndexError))"

text \<open>
  \<^verbatim>\<open>Agent.update_state\<close> and \<^verbatim>\<open>Agent.move\<close> on agent \<open>i\<close> of the list. Positions are
  tuples, so a snapshot is a copy of the value. An exception leaves the call with
  \<open>Inl\<close>; the partly updated objects are not kept.
\<close>

definition update_state :: "agent list \<Rightarrow> nat \<Rightarrow> error + agent list" where
  "update_state agents i =
     (case friend (agents ! i) of
        None \<Rightarrow> Inl AttributeError
      | Some fi \<Rightarrow>
          (case enemy (agents ! i) of
             None \<Rightarrow> Inl AttributeError
           | Some ei \<Rightarrow>
               Inr (agents[i := (agents ! i)
                      \<lparr>friend_position := Some (position (agents ! fi)),
                       enemy_position := Some (position (agents ! ei))\<rparr>])))"

definition move :: "agent list \<Rightarrow> nat \<Rightarrow> error + agent list" where
  "move agents i =
     (case get_new_position (agents ! i) of
        Inl err \<Rightarrow> Inl err
      | Inr new_position \<Rightarrow> Inr (agents[i := (agents ! i)\<lparr>position := new_position\<rparr>]))"

subsection \<open>Agent creators\<close>

datatype agent_creator =
  ProtectiveAgent1Creator | ProtectiveAgent2Creator | HidingAgent1Creator real
  | HidingAgent2Creator

fun create_agent :: "agent_creator \<Rightarrow> real \<Rightarrow> real \<Rightarrow> real \<Rightarrow> agent" where
  "create_agent ProtectiveAgent1Creator x y s = Agent_init ProtectiveAgent1 x y s"
| "create_agent ProtectiveAgent2Creator x y s = Agent_init ProtectiveAgent2 x y s"
| "create_agent (HidingAgent1Creator distance) x y s = Agent_init (HidingAgent1 distance) x y s"
| "create_agent HidingAgent2Creator x y s = Agent_init HidingAgent2 x y s"

subsection \<open>Relationship assignment and the two passes of a step\<close>

text \<open>
  \<^verbatim>\<open>self.agents[k]\<close>: which object of the list a Python index denotes. A negative index
  counts from the end; an index outside the list raises IndexError.
\<close>

definition agent_at :: "agent list \<Rightarrow> int \<Rightarrow> error + nat" where
  "agent_at agents k =
     (if 0 \<le> k \<and> k < int (length agents) then Inr (nat k)
      else if k < 0 \<and> - int (length agents) \<le> k then Inr (nat (int (length agents) + k))
      else Inl IndexError)"

text \<open>
  The two assignments that end both loops: \<^verbatim>\<open>self.agents[i].friend = self.agents[friend_idx]\<close>
  and \<^verbatim>\<open>self.agents[i].enemy = self.agents[enemy_idx]\<close>.
\<close>

definition assign :: "agent list \<Rightarrow> nat \<Rightarrow> int \<Rightarrow> int \<Rightarrow> error + agent list" where
  "assign agents i friend_idx enemy_idx =
     (case agent_at agents friend_idx of
        Inl err \<Rightarrow> Inl err
      | Inr fr \<Rightarrow>
          (case agent_at agents (int i) of
             Inl err \<Rightarrow> Inl err
           | Inr k \<Rightarrow>
               (case agent_at agents enemy_idx of
                  Inl err \<Rightarrow> Inl err
                | Inr en \<Rightarrow> Inr (agents[k := (agents ! k)\<lparr>friend := Some fr, enemy := Some en\<rparr>]))))"

text \<open>
  \<^verbatim>\<open>random.sample(population, 2)\<close>: ValueError when the population has fewer than two
  elements; otherwise the elements at two different positions of the population. The
  positions drawn are an argument, \<open>pick\<close>; \<open>valid_pick\<close> says what the library
  guarantees about them.
\<close>

definition random_sample :: "nat \<times> nat \<Rightarrow> nat list \<Rightarrow> error + (nat \<times> nat)" where
  "random_sample pick population =
     (if length population < 2 then Inl ValueError
      else Inr (population ! fst pick, population ! snd pick))"

definition valid_pick :: "nat \<times> nat \<Rightarrow> nat \<Rightarrow> bool" where
  "valid_pick pick len = (fst pick < len \<and> snd pick < len \<and> fst pick \<noteq> snd pick)"

text \<open>A \<^verbatim>\<open>for i in ...\<close> loop over the agent list that stops at the first exception.\<close>

fun for_each ::
    "(agent list \<Rightarrow> nat \<Rightarrow> error + agent list) \<Rightarrow> nat list \<Rightarrow> agent list \<Rightarrow> error + agent list" where
  "for_each body [] agents = Inr agents"
| "for_each body (i # rest) agents =
     (case body agents i of
        Inl err \<Rightarrow> Inl err
      | Inr agents' \<Rightarrow> for_each body rest agents')"

text \<open>\<^verbatim>\<open>Environment.__random_agent_assignment\<close>; \<open>picks i\<close> are the positions drawn for
  agent \<open>i\<close>.\<close>

definition random_assign_body ::
    "int \<Rightarrow> (nat \<Rightarrow> nat \<times> nat) \<Rightarrow> agent list \<Rightarrow> nat \<Rightarrow> error + agent list" where
  "random_assign_body n picks agents i =
     (let other_agents = [0..<i] @ [i + 1..<nat n] in
      case random_sample (picks i) other_agents of
        Inl err \<Rightarrow> Inl err
      | Inr (friend_idx, enemy_idx) \<Rightarrow> assign agents i (int friend_idx) (int enemy_idx))"

definition random_agent_assignment ::
    "int \<Rightarrow> (nat \<Rightarrow> nat \<times> nat) \<Rightarrow> agent list \<Rightarrow> error + agent list" where
  "random_agent_assignment n picks agents =
     for_each (random_assign_body n picks) [0..<nat n] agents"

text \<open>\<^verbatim>\<open>Environment.__neighbours_agent_assignment\<close>.\<close>

definition neighbours_assign_body :: "int \<Rightarrow> agent list \<Rightarrow> nat \<Rightarrow> error + agent list" where
  "neighbours_assign_body n agents i =
     (let (friend_idx, enemy_idx) =
            (if i = 0 then (- 1, int i + 1)
             else if int i = n - 1 then (- 2, 0)
             else (int i - 1, int i + 1))
      in assign agents i friend_idx enemy_idx)"

definition neighbours_agent_assignment :: "int \<Rightarrow> agent list \<Rightarrow> error + agent list" where
  "neighbours_agent_assignment n agents =
     for_each (neighbours_assign_body n) [0..<nat n] agents"

text \<open>
  \<^verbatim>\<open>Environment.step\<close>: one pass of \<^verbatim>\<open>update_state\<close>, then one pass of \<^verbatim>\<open>move\<close>.
  \<open>step_in_order\<close> takes the order in which each pass visits the agents; the source
  visits them in list order in both.
\<close>

definition step_in_order :: "nat list \<Rightarrow> nat list \<Rightarrow> agent list \<Rightarrow> error + agent list" where
  "step_in_order order1 order2 agents =
     (case for_each update_state order1 agents of
        Inl err \<Rightarrow> Inl err
      | Inr perceived \<Rightarrow> for_each move order2 perceived)"

subsection \<open>Environment\<close>

record environment =
  n_agents :: int
  step_size :: real
  grid_size :: "real \<times> real"
  agent_creator :: agent_creator
  agents :: "agent list"

text \<open>\<^verbatim>\<open>Environment.__init__\<close>: it stores its arguments and checks none of them.\<close>

definition Environment_init ::
    "int \<Rightarrow> real \<Rightarrow> real \<times> real \<Rightarrow> agent_creator \<Rightarrow> environment" where
  "Environment_init n s g c =
     \<lparr>n_agents = n, step_size = s, grid_size = g, agent_creator = c, agents = []\<rparr>"

text \<open>
  \<^verbatim>\<open>Environment.reset\<close>. \<open>rand k\<close> are the two values of \<^verbatim>\<open>np.random.rand()\<close> drawn for
  the \<open>k\<close>-th agent created.
\<close>

definition reset ::
    "string \<Rightarrow> (nat \<Rightarrow> real \<times> real) \<Rightarrow> (nat \<Rightarrow> nat \<times> nat) \<Rightarrow> environment
      \<Rightarrow> error + environment" where
  "reset assignment_type rand picks env =
     (let created =
            map (\<lambda>k. create_agent (agent_creator env)
                        (fst (rand k) * fst (grid_size env))
                        (snd (rand k) * snd (grid_size env))
                        (environment.step_size env))
              [0..<nat (n_agents env)]
      in case (if assignment_type = ''random''
                 then random_agent_assignment (n_agents env) picks created
               else if assignment_type = ''neighbours''
                 then neighbours_agent_assignment (n_agents env) created
               else Inr created) of
           Inl err \<Rightarrow> Inl err
         | Inr assigned \<Rightarrow> Inr (env\<lparr>agents := assigned\<rparr>))"

text \<open>\<^verbatim>\<open>Environment.step\<close> on the environment: both passes in list order.\<close>

definition step :: "environment \<Rightarrow> error + environment" where
  "step env =
     (case step_in_order [0..<length (agents env)] [0..<length (agents env)] (agents env) of
        Inl err \<Rightarrow> Inl err
      | Inr moved \<Rightarrow> Inr (env\<lparr>agents := moved\<rparr>))"

section \<open>Vocabulary of the properties\<close>

text \<open>
  Every agent has a friend and an enemy, and both are agents of the list.
\<close>

definition wired :: "agent list \<Rightarrow> bool" where
  "wired ags =
     list_all (\<lambda>a. case (friend a, enemy a) of
                      (Some fi, Some ei) \<Rightarrow> fi < length ags \<and> ei < length ags
                    | _ \<Rightarrow> False) ags"

text \<open>
  The simultaneous update of the specification: an agent after one tick, computed from
  the positions all agents had before the tick.
\<close>

definition simultaneous :: "agent list \<Rightarrow> agent \<Rightarrow> agent" where
  "simultaneous ags a =
     (case (friend a, enemy a) of
        (Some fi, Some ei) \<Rightarrow>
          a\<lparr>friend_position := Some (position (ags ! fi)),
            enemy_position := Some (position (ags ! ei)),
            position := new_position_of (cls a) (agent.step_size a) (position a)
                          (position (ags ! fi)) (position (ags ! ei))\<rparr>
      | _ \<Rightarrow> a)"

text \<open>The effect of each pass on one agent, used to describe the state between passes.\<close>

definition perceive :: "agent list \<Rightarrow> agent \<Rightarrow> agent" where
  "perceive ags a =
     a\<lparr>friend_position := Some (position (ags ! the (friend a))),
       enemy_position := Some (position (ags ! the (enemy a)))\<rparr>"

definition relocate :: "agent \<Rightarrow> agent" where
  "relocate a =
     a\<lparr>position := new_position_of (cls a) (agent.step_size a) (position a)
                     (the (friend_position a)) (the (enemy_position a))\<rparr>"

text \<open>
  The relationship invariant: every agent has a friend and an enemy in the list, neither
  is the agent itself, and they are two different agents.
\<close>

definition relationship_invariant :: "agent list \<Rightarrow> bool" where
  "relationship_invariant ags =
     list_all (\<lambda>i. case (friend (ags ! i), enemy (ags ! i)) of
                      (Some fr, Some en) \<Rightarrow>
                        fr < length ags \<and> en < length ags \<and> fr \<noteq> i \<and> en \<noteq> i \<and> fr \<noteq> en
                    | _ \<Rightarrow> False) [0..<length ags]"

definition befriend :: "nat \<Rightarrow> nat \<Rightarrow> agent \<Rightarrow> agent" where
  "befriend fr en a = a\<lparr>friend := Some fr, enemy := Some en\<rparr>"

text \<open>The objects that the neighbour indices denote in a list of \<open>n\<close> agents.\<close>

definition neighbour_friend :: "nat \<Rightarrow> nat \<Rightarrow> nat" where
  "neighbour_friend n i = (if i = 0 then n - 1 else if i = n - 1 then n - 2 else i - 1)"

definition neighbour_enemy :: "nat \<Rightarrow> nat \<Rightarrow> nat" where
  "neighbour_enemy n i = (if i = 0 then 1 else if i = n - 1 then 0 else i + 1)"

text \<open>The agents that a draw selects for agent \<open>i\<close> among \<open>n\<close>.\<close>

definition random_friend :: "nat \<Rightarrow> (nat \<Rightarrow> nat \<times> nat) \<Rightarrow> nat \<Rightarrow> nat" where
  "random_friend n picks i = ([0..<i] @ [i + 1..<n]) ! fst (picks i)"

definition random_enemy :: "nat \<Rightarrow> (nat \<Rightarrow> nat \<times> nat) \<Rightarrow> nat \<Rightarrow> nat" where
  "random_enemy n picks i = ([0..<i] @ [i + 1..<n]) ! snd (picks i)"

text \<open>One fixed outcome of the random draws, for the concrete runs below.\<close>

definition fixed_rand :: "nat \<Rightarrow> real \<times> real" where
  "fixed_rand k = (1 / 2, 1 / 4)"

definition fixed_picks :: "nat \<Rightarrow> nat \<times> nat" where
  "fixed_picks i = (0, 1)"

text \<open>Three midpoint-seeking agents on the x axis, wired in a ring.\<close>

definition line_of_three :: "agent list" where
  "line_of_three =
     [befriend 2 1 (Agent_init ProtectiveAgent1 0 0 1),
      befriend 0 2 (Agent_init ProtectiveAgent1 4 0 1),
      befriend 1 0 (Agent_init ProtectiveAgent1 10 0 1)]"

text \<open>
  Three hiding agents of the first kind; the friend and the enemy of the first one stand
  on the same point.
\<close>

definition coincident_three :: "agent list" where
  "coincident_three =
     [befriend 1 2 (Agent_init (HidingAgent1 3) 0 0 1),
      befriend 0 2 (Agent_init (HidingAgent1 3) 7 0 1),
      befriend 1 0 (Agent_init (HidingAgent1 3) 7 0 1)]"

section \<open>Properties\<close>

subsection \<open>Facts about the norm and the travel primitive\<close>

lemma norm2_nonneg: "0 \<le> norm2 a"
  by (simp add: norm2_def)

lemma norm2_sq: "(norm2 a)\<^sup>2 = (fst a)\<^sup>2 + (snd a)\<^sup>2"
  by (simp add: norm2_def)

lemma norm2_eq_0: "norm2 a = 0 \<longleftrightarrow> a = (0, 0)"
proof -
  have "(fst a)\<^sup>2 + (snd a)\<^sup>2 = 0 \<longleftrightarrow> fst a = 0 \<and> snd a = 0"
    by (simp add: sum_power2_eq_zero_iff)
  then show ?thesis
    by (simp add: norm2_def prod_eq_iff)
qed

lemma norm2_smul: "norm2 (smul c a) = \<bar>c\<bar> * norm2 a"
proof -
  have "(c * fst a)\<^sup>2 + (c * snd a)\<^sup>2 = c\<^sup>2 * ((fst a)\<^sup>2 + (snd a)\<^sup>2)"
    by (simp add: power_mult_distrib distrib_left)
  then show ?thesis
    by (simp add: norm2_def smul_def real_sqrt_mult)
qed

lemma norm2_vsub_eq_0: "norm2 (vsub a b) = 0 \<longleftrightarrow> a = b"
  by (auto simp: norm2_eq_0 vsub_def prod_eq_iff)

lemma norm2_x_axis: "norm2 (a, 0) = \<bar>a\<bar>"
  by (simp add: norm2_def)

lemma norm2_y_axis: "norm2 (0, b) = \<bar>b\<bar>"
  by (simp add: norm2_def)

lemma cpv_zero: "norm2 (vsub cur dest) = 0 \<Longrightarrow> calculate_point_on_vector cur s dest = cur"
  by (simp add: calculate_point_on_vector_def Let_def vsub_def smul_def)

lemma cpv_scaled:
  assumes "norm2 (vsub cur dest) \<noteq> 0"
  shows "calculate_point_on_vector cur s dest =
           vsub cur (smul (min (norm2 (vsub cur dest)) s / norm2 (vsub cur dest)) (vsub cur dest))"
  using assms by (simp add: calculate_point_on_vector_def Let_def vsub_def smul_def vdiv_def)

lemma cpv_toward:
  assumes "norm2 (vsub cur dest) \<noteq> 0"
  shows "calculate_point_on_vector cur s dest =
           vadd cur (smul (min (point_distance cur dest) s)
                          (vdiv (vsub dest cur) (point_distance cur dest)))"
  using assms
  by (simp add: calculate_point_on_vector_def Let_def vsub_def smul_def vdiv_def vadd_def
      point_distance_def field_simps)

lemma cpv_step_bound:
  assumes "0 < s"
  shows "point_distance (calculate_point_on_vector cur s dest) cur \<le> s"
proof (cases "norm2 (vsub cur dest) = 0")
  case True
  then show ?thesis using assms
    by (simp add: cpv_zero point_distance_def vsub_def norm2_def)
next
  case False
  define D where "D = norm2 (vsub cur dest)"
  have Dpos: "0 < D" using False norm2_nonneg[of "vsub cur dest"] by (simp add: D_def)
  define m where "m = min D s"
  have m0: "0 \<le> m" using Dpos assms by (simp add: m_def)
  have "vsub (calculate_point_on_vector cur s dest) cur = smul (- (m / D)) (vsub cur dest)"
    using False by (simp add: cpv_scaled D_def m_def vsub_def smul_def)
  then have "point_distance (calculate_point_on_vector cur s dest) cur = \<bar>- (m / D)\<bar> * D"
    by (simp add: point_distance_def norm2_smul D_def)
  also have "\<dots> = m" using Dpos m0 by simp
  also have "\<dots> \<le> s" by (simp add: m_def)
  finally show ?thesis .
qed

lemma cpv_no_overshoot:
  assumes "0 < s"
  shows "point_distance (calculate_point_on_vector cur s dest) dest \<le> point_distance cur dest"
proof (cases "norm2 (vsub cur dest) = 0")
  case True
  then show ?thesis by (simp add: cpv_zero)
next
  case False
  define D where "D = norm2 (vsub cur dest)"
  have Dpos: "0 < D" using False norm2_nonneg[of "vsub cur dest"] by (simp add: D_def)
  define m where "m = min D s"
  have m0: "0 \<le> m" and mD: "m \<le> D" using Dpos assms by (simp_all add: m_def)
  have "vsub (calculate_point_on_vector cur s dest) dest = smul (1 - m / D) (vsub cur dest)"
    using False by (simp add: cpv_scaled D_def m_def vsub_def smul_def algebra_simps)
  then have "point_distance (calculate_point_on_vector cur s dest) dest = \<bar>1 - m / D\<bar> * D"
    by (simp add: point_distance_def norm2_smul D_def)
  also have "\<dots> = (1 - m / D) * D" using Dpos mD by simp
  also have "\<dots> = D - m" using Dpos by (simp add: field_simps)
  also have "\<dots> \<le> D" using m0 by simp
  finally show ?thesis by (simp add: point_distance_def D_def)
qed

subsection \<open>The obtuse tests and the intersection\<close>


lemma line_intersection_general:
  assumes dx: "fst e \<noteq> fst f" and dy: "snd e \<noteq> snd f" and q_def: "q = line_intersection p f e"
  shows "(fst q - fst f) * (snd e - snd f) = (snd q - snd f) * (fst e - fst f)"
    and "(fst q - fst p) * (fst e - fst f) + (snd q - snd p) * (snd e - snd f) = 0"
proof -
  define m1 where "m1 = (snd e - snd f) / (fst e - fst f)"
  define m2 where "m2 = - 1 / m1"
  define b1 where "b1 = snd e - m1 * fst e"
  define b2 where "b2 = snd p - m2 * fst p"
  define x where "x = (b1 - b2) / (m2 - m1)"
  define y where "y = m1 * x + b1"
  have ifs: "fst e - fst f \<noteq> 0" "snd e - snd f \<noteq> 0"
    using dx dy by simp_all
  have q: "q = (x, y)"
    unfolding q_def line_intersection_def Let_def x_def y_def b1_def b2_def m2_def m1_def
    using ifs by (simp only: if_False)
  have m1nz: "m1 \<noteq> 0" using dx dy by (simp add: m1_def)
  have m1dx: "m1 * (fst e - fst f) = snd e - snd f" using dx by (simp add: m1_def)
  have m2dy: "m2 * (snd e - snd f) = - (fst e - fst f)"
    using dx dy by (simp add: m2_def m1_def)
  have "m2 - m1 = - (1 + m1\<^sup>2) / m1"
    using m1nz by (simp add: m2_def field_simps power2_eq_square)
  moreover have "1 + m1\<^sup>2 \<noteq> 0"
  proof -
    have "0 < 1 + m1\<^sup>2" by (simp add: add_pos_nonneg)
    then show ?thesis by simp
  qed
  ultimately have dm: "m2 - m1 \<noteq> 0" using m1nz by simp
  have "x * (m2 - m1) = b1 - b2" using dm by (simp add: x_def)
  then have y2: "y = m2 * x + b2" by (simp add: y_def algebra_simps)
  have yf: "y - snd f = m1 * (x - fst f)"
    using m1dx by (simp add: y_def b1_def algebra_simps)
  have yp: "y - snd p = m2 * (x - fst p)"
    by (simp add: y2 b2_def algebra_simps)
  show "(fst q - fst f) * (snd e - snd f) = (snd q - snd f) * (fst e - fst f)"
    using m1dx by (simp add: q yf mult.assoc mult.commute)
  have "(y - snd p) * (snd e - snd f) = (x - fst p) * (m2 * (snd e - snd f))"
    by (simp only: yp mult_ac)
  also have "\<dots> = (x - fst p) * (- (fst e - fst f))"
    by (simp only: m2dy)
  finally have "(y - snd p) * (snd e - snd f) = - ((x - fst p) * (fst e - fst f))"
    by (simp add: algebra_simps)
  then show "(fst q - fst p) * (fst e - fst f) + (snd q - snd p) * (snd e - snd f) = 0"
    by (simp add: q)
qed


lemma hiding1_candidate_distance:
  assumes "f \<noteq> e" and "0 < distance"
  shows "norm2 (vsub e (vadd f (smul distance (vdiv (vsub f e) (norm2 (vsub f e))))))
           = norm2 (vsub f e) + distance"
proof -
  define D where "D = norm2 (vsub f e)"
  have Dpos: "0 < D"
    using assms(1) norm2_nonneg [of "vsub f e"] norm2_vsub_eq_0 [of f e] by (simp add: D_def)
  have "vsub e (vadd f (smul distance (vdiv (vsub f e) D)))
          = smul (- (1 + distance / D)) (vsub f e)"
    by (simp add: vsub_def vadd_def smul_def vdiv_def algebra_simps diff_divide_distrib)
  then have "norm2 (vsub e (vadd f (smul distance (vdiv (vsub f e) D))))
          = \<bar>- (1 + distance / D)\<bar> * D"
    by (simp add: norm2_smul D_def)
  also have "\<dots> = (1 + distance / D) * D"
  proof -
    have "0 \<le> 1 + distance / D" using Dpos assms(2) by simp
    then show ?thesis by (simp only: abs_minus_cancel abs_of_nonneg)
  qed
  also have "\<dots> = D + distance"
    using Dpos by (simp add: field_simps)
  finally show ?thesis by (simp add: D_def)
qed

subsection \<open>The two passes of a step\<close>

lemma wiredD:
  assumes "wired ags" and "i < length ags"
  obtains fi ei where "friend (ags ! i) = Some fi" and "enemy (ags ! i) = Some ei"
    and "fi < length ags" and "ei < length ags"
proof -
  from assms have "case (friend (ags ! i), enemy (ags ! i)) of
      (Some fi, Some ei) \<Rightarrow> fi < length ags \<and> ei < length ags | _ \<Rightarrow> False"
    by (simp add: wired_def list_all_length)
  then show thesis
    by (auto split: option.splits intro: that)
qed

lemma update_state_wired:
  assumes "friend (cur ! j) = Some fi" and "enemy (cur ! j) = Some ei"
  shows "update_state cur j =
           Inr (cur[j := (cur ! j)\<lparr>friend_position := Some (position (cur ! fi)),
                                  enemy_position := Some (position (cur ! ei))\<rparr>])"
  using assms by (simp add: update_state_def)

lemma update_pass:
  assumes "wired ags" and "set ord \<subseteq> {..<length ags}" and "length cur = length ags"
    and "\<forall>i<length ags. position (cur ! i) = position (ags ! i) \<and>
            friend (cur ! i) = friend (ags ! i) \<and> enemy (cur ! i) = enemy (ags ! i)"
  shows "\<exists>res. for_each update_state ord cur = Inr res \<and> length res = length ags \<and>
           (\<forall>i<length ags. res ! i = (if i \<in> set ord then perceive ags (cur ! i) else cur ! i))"
  using assms(2-)
proof (induction ord arbitrary: cur)
  case Nil
  then show ?case by simp
next
  case (Cons j js)
  from Cons.prems have j: "j < length ags" and js: "set js \<subseteq> {..<length ags}" by auto
  from wiredD [OF assms(1) j] obtain fi ei where
    w: "friend (ags ! j) = Some fi" "enemy (ags ! j) = Some ei" "fi < length ags" "ei < length ags"
    by blast
  define cur' where
    "cur' = cur[j := (cur ! j)\<lparr>friend_position := Some (position (cur ! fi)),
                              enemy_position := Some (position (cur ! ei))\<rparr>]"
  have same: "\<And>i. i < length ags \<Longrightarrow> position (cur ! i) = position (ags ! i) \<and>
            friend (cur ! i) = friend (ags ! i) \<and> enemy (cur ! i) = enemy (ags ! i)"
    using Cons.prems(3) by blast
  have upd: "update_state cur j = Inr cur'"
    unfolding cur'_def by (rule update_state_wired) (simp_all add: same j w)
  have len': "length cur' = length ags"
    using Cons.prems(2) by (simp add: cur'_def)
  have same': "\<forall>i<length ags. position (cur' ! i) = position (ags ! i) \<and>
            friend (cur' ! i) = friend (ags ! i) \<and> enemy (cur' ! i) = enemy (ags ! i)"
    using Cons.prems(2) same j by (simp add: cur'_def nth_list_update)
  from Cons.IH [OF js len' same'] obtain res where
    res: "for_each update_state js cur' = Inr res" "length res = length ags"
      "\<forall>i<length ags. res ! i = (if i \<in> set js then perceive ags (cur' ! i) else cur' ! i)"
    by blast
  have atj: "cur' ! j = perceive ags (cur ! j)"
    using Cons.prems(2) j w same by (simp add: cur'_def perceive_def)
  have idem: "perceive ags (cur' ! j) = perceive ags (cur ! j)"
    by (simp add: atj perceive_def)
  have other: "\<And>i. i \<noteq> j \<Longrightarrow> cur' ! i = cur ! i"
    by (simp add: cur'_def)
  have "\<forall>i<length ags. res ! i = (if i \<in> set (j # js) then perceive ags (cur ! i) else cur ! i)"
  proof (intro allI impI)
    fix i assume i: "i < length ags"
    show "res ! i = (if i \<in> set (j # js) then perceive ags (cur ! i) else cur ! i)"
    proof (cases "i = j")
      case True
      then show ?thesis using res(3) i atj idem by simp
    next
      case False
      then show ?thesis using res(3) i other by simp
    qed
  qed
  with res(1,2) upd show ?case by simp
qed

lemma move_ready:
  assumes "friend_position (cur ! j) \<noteq> None" and "enemy_position (cur ! j) \<noteq> None"
  shows "move cur j = Inr (cur[j := relocate (cur ! j)])"
  using assms by (auto simp: move_def get_new_position_def relocate_def)

lemma move_pass:
  assumes "distinct ord" and "set ord \<subseteq> {..<length cur}"
    and "\<forall>i<length cur. friend_position (cur ! i) \<noteq> None \<and> enemy_position (cur ! i) \<noteq> None"
  shows "\<exists>res. for_each move ord cur = Inr res \<and> length res = length cur \<and>
           (\<forall>i<length cur. res ! i = (if i \<in> set ord then relocate (cur ! i) else cur ! i))"
  using assms
proof (induction ord arbitrary: cur)
  case Nil
  then show ?case by simp
next
  case (Cons j js)
  from Cons.prems have j: "j < length cur" and js: "set js \<subseteq> {..<length cur}"
    and fresh: "j \<notin> set js" and djs: "distinct js" by auto
  define cur' where "cur' = cur[j := relocate (cur ! j)]"
  have mv: "move cur j = Inr cur'"
    unfolding cur'_def using Cons.prems(3) j by (intro move_ready) simp_all
  have len': "length cur' = length cur" by (simp add: cur'_def)
  have ready': "\<forall>i<length cur'. friend_position (cur' ! i) \<noteq> None \<and>
      enemy_position (cur' ! i) \<noteq> None"
    using Cons.prems(3) j by (simp add: cur'_def nth_list_update relocate_def)
  from Cons.IH [OF djs _ ready'] js len' obtain res where
    res: "for_each move js cur' = Inr res" "length res = length cur"
      "\<forall>i<length cur. res ! i = (if i \<in> set js then relocate (cur' ! i) else cur' ! i)"
    by auto
  have "\<forall>i<length cur. res ! i = (if i \<in> set (j # js) then relocate (cur ! i) else cur ! i)"
  proof (intro allI impI)
    fix i assume i: "i < length cur"
    show "res ! i = (if i \<in> set (j # js) then relocate (cur ! i) else cur ! i)"
    proof (cases "i = j")
      case True
      then show ?thesis using res(3) i fresh j by (simp add: cur'_def)
    next
      case False
      then show ?thesis using res(3) i by (simp add: cur'_def)
    qed
  qed
  with res(1,2) mv show ?case by simp
qed

lemma relocate_perceive:
  assumes "friend a = Some fi" and "enemy a = Some ei"
  shows "relocate (perceive ags a) = simultaneous ags a"
  using assms by (simp add: relocate_def perceive_def simultaneous_def)

lemma step_in_order_simultaneous:
  assumes "wired ags"
    and "set order1 = {..<length ags}"
    and "distinct order2" and "set order2 = {..<length ags}"
  shows "step_in_order order1 order2 ags = Inr (map (simultaneous ags) ags)"
proof -
  from update_pass [OF assms(1), of order1 ags] assms(2) obtain p1 where
    p1: "for_each update_state order1 ags = Inr p1" "length p1 = length ags"
      "\<forall>i<length ags. p1 ! i = perceive ags (ags ! i)"
    by auto
  have ready: "\<forall>i<length p1. friend_position (p1 ! i) \<noteq> None \<and> enemy_position (p1 ! i) \<noteq> None"
    using p1(2,3) by (simp add: perceive_def)
  from move_pass [OF assms(3) _ ready] assms(4) p1(2) obtain p2 where
    p2: "for_each move order2 p1 = Inr p2" "length p2 = length ags"
      "\<forall>i<length ags. p2 ! i = relocate (p1 ! i)"
    by auto
  have "p2 = map (simultaneous ags) ags"
  proof (rule nth_equalityI)
    show "length p2 = length (map (simultaneous ags) ags)" using p2(2) by simp
  next
    fix i assume "i < length p2"
    then have i: "i < length ags" using p2(2) by simp
    from wiredD [OF assms(1) i] obtain fi ei where
      "friend (ags ! i) = Some fi" "enemy (ags ! i) = Some ei" by blast
    then have "relocate (perceive ags (ags ! i)) = simultaneous ags (ags ! i)"
      by (rule relocate_perceive)
    then show "p2 ! i = map (simultaneous ags) ags ! i"
      using i p1(3) p2(3) by simp
  qed
  with p1(1) p2(1) show ?thesis by (simp add: step_in_order_def)
qed

subsection \<open>Relationship assignment\<close>

lemma agent_at_nat: "k < length ags \<Longrightarrow> agent_at ags (int k) = Inr k"
  by (simp add: agent_at_def)

lemma assign_ok:
  assumes "agent_at ags friend_idx = Inr fr" and "i < length ags"
    and "agent_at ags enemy_idx = Inr en"
  shows "assign ags i friend_idx enemy_idx = Inr (ags[i := befriend fr en (ags ! i)])"
  using assms by (simp add: assign_def agent_at_nat befriend_def)

lemma for_each_befriend:
  assumes body: "\<And>cur i. length cur = n \<Longrightarrow> i < n \<Longrightarrow>
            body cur i = Inr (cur[i := befriend (F i) (E i) (cur ! i)])"
    and "length cur = n" and "set ord \<subseteq> {..<n}"
  shows "\<exists>res. for_each body ord cur = Inr res \<and> length res = n \<and>
           (\<forall>i<n. res ! i = (if i \<in> set ord then befriend (F i) (E i) (cur ! i) else cur ! i))"
  using assms(2-)
proof (induction ord arbitrary: cur)
  case Nil
  then show ?case by simp
next
  case (Cons j js)
  from Cons.prems have j: "j < n" and js: "set js \<subseteq> {..<n}" by auto
  define cur' where "cur' = cur[j := befriend (F j) (E j) (cur ! j)]"
  have b: "body cur j = Inr cur'"
    unfolding cur'_def using Cons.prems(1) j by (rule body)
  have len': "length cur' = n" using Cons.prems(1) by (simp add: cur'_def)
  from Cons.IH [OF len' js] obtain res where
    res: "for_each body js cur' = Inr res" "length res = n"
      "\<forall>i<n. res ! i = (if i \<in> set js then befriend (F i) (E i) (cur' ! i) else cur' ! i)"
    by blast
  have "\<forall>i<n. res ! i = (if i \<in> set (j # js) then befriend (F i) (E i) (cur ! i) else cur ! i)"
  proof (intro allI impI)
    fix i assume i: "i < n"
    show "res ! i = (if i \<in> set (j # js) then befriend (F i) (E i) (cur ! i) else cur ! i)"
    proof (cases "i = j")
      case True
      then show ?thesis using res(3) i Cons.prems(1) by (simp add: cur'_def befriend_def)
    next
      case False
      then show ?thesis using res(3) i by (simp add: cur'_def)
    qed
  qed
  with res(1,2) b show ?case by simp
qed

lemma for_each_befriend_all:
  assumes "\<And>cur i. length cur = n \<Longrightarrow> i < n \<Longrightarrow>
            body cur i = Inr (cur[i := befriend (F i) (E i) (cur ! i)])"
    and "length cur = n"
  shows "\<exists>res. for_each body [0..<n] cur = Inr res \<and> length res = n \<and>
           (\<forall>i<n. res ! i = befriend (F i) (E i) (cur ! i))"
proof -
  have "set [0..<n] \<subseteq> {..<n}" by auto
  from for_each_befriend [of n body F E, OF assms this] show ?thesis by simp
qed

lemma relationship_invariantI:
  assumes "\<And>i. i < length ags \<Longrightarrow> ags ! i = befriend (F i) (E i) (old ! i)"
    and "\<And>i. i < length ags \<Longrightarrow>
            F i < length ags \<and> E i < length ags \<and> F i \<noteq> i \<and> E i \<noteq> i \<and> F i \<noteq> E i"
  shows "relationship_invariant ags"
  using assms by (simp add: relationship_invariant_def list_all_iff befriend_def)

lemma neighbours_body_ok:
  assumes "2 \<le> n" and "length cur = nat n" and "i < nat n"
  shows "neighbours_assign_body n cur i =
           Inr (cur[i := befriend (neighbour_friend (nat n) i) (neighbour_enemy (nat n) i) (cur ! i)])"
proof -
  have nn: "2 \<le> nat n" using assms(1) by simp
  consider "i = 0" | "i \<noteq> 0" "int i = n - 1" | "i \<noteq> 0" "int i \<noteq> n - 1" by blast
  then show ?thesis
  proof cases
    case 1
    have "agent_at cur (- 1) = Inr (nat n - 1)" "agent_at cur (int 0 + 1) = Inr 1"
      using assms(1,2) by (simp_all add: agent_at_def nat_diff_distrib')
    then show ?thesis
      using 1 nn assms by (simp add: neighbours_assign_body_def assign_ok [where fr = "nat n - 1" and en = 1]
          neighbour_friend_def neighbour_enemy_def)
  next
    case 2
    then have i: "i = nat n - 1" by linarith
    have "agent_at cur (- 2) = Inr (nat n - 2)" "agent_at cur 0 = Inr 0"
      using assms(1,2) by (simp_all add: agent_at_def nat_diff_distrib')
    then show ?thesis
      using 2 i nn assms by (simp add: neighbours_assign_body_def assign_ok [where fr = "nat n - 2" and en = 0]
          neighbour_friend_def neighbour_enemy_def)
  next
    case 3
    then have i: "i \<noteq> nat n - 1" "i + 1 < nat n" using assms(3) by linarith+
    have a: "0 \<le> n" "int i + 1 < n" "1 \<le> int i" using 3 assms by linarith+
    have "nat (int i - 1) = i - 1" "nat (int i + 1) = i + 1" by linarith+
    then have "agent_at cur (int i - 1) = Inr (i - 1)" "agent_at cur (int i + 1) = Inr (i + 1)"
      using a assms(2) by (simp_all add: agent_at_def)
    then show ?thesis
      using 3 i nn assms by (simp add: neighbours_assign_body_def assign_ok [where fr = "i - 1" and en = "i + 1"]
          neighbour_friend_def neighbour_enemy_def)
  qed
qed

lemma neighbours_agent_assignment_ok:
  assumes "2 \<le> n" and "length ags = nat n"
  shows "\<exists>res. neighbours_agent_assignment n ags = Inr res \<and> length res = nat n \<and>
           (\<forall>i<nat n. res ! i =
              befriend (neighbour_friend (nat n) i) (neighbour_enemy (nat n) i) (ags ! i))"
  unfolding neighbours_agent_assignment_def
  using assms by (intro for_each_befriend_all neighbours_body_ok)

lemma neighbours_distinct:
  assumes "3 \<le> n" and "i < n"
  shows "neighbour_friend n i < n \<and> neighbour_enemy n i < n \<and> neighbour_friend n i \<noteq> i \<and>
         neighbour_enemy n i \<noteq> i \<and> neighbour_friend n i \<noteq> neighbour_enemy n i"
  using assms by (auto simp: neighbour_friend_def neighbour_enemy_def)


lemma other_agents_props:
  assumes "i < n"
  shows "length ([0..<i] @ [i + 1..<n]) = n - 1"
    and "distinct ([0..<i] @ [i + 1..<n])"
    and "set ([0..<i] @ [i + 1..<n]) = {..<n} - {i}"
  using assms by auto

lemma random_distinct:
  assumes "i < n" and "valid_pick (picks i) (n - 1)"
  shows "random_friend n picks i < n \<and> random_enemy n picks i < n \<and>
         random_friend n picks i \<noteq> i \<and> random_enemy n picks i \<noteq> i \<and>
         random_friend n picks i \<noteq> random_enemy n picks i"
proof -
  let ?other = "[0..<i] @ [i + 1..<n]"
  from assms(2) have a: "fst (picks i) < length ?other" and b: "snd (picks i) < length ?other"
    and ab: "fst (picks i) \<noteq> snd (picks i)"
    using other_agents_props(1) [OF assms(1)] by (simp_all add: valid_pick_def)
  from a have "?other ! fst (picks i) \<in> set ?other" by (rule nth_mem)
  then have fr: "?other ! fst (picks i) \<in> {..<n} - {i}"
    by (simp only: other_agents_props(3) [OF assms(1)])
  from b have "?other ! snd (picks i) \<in> set ?other" by (rule nth_mem)
  then have en: "?other ! snd (picks i) \<in> {..<n} - {i}"
    by (simp only: other_agents_props(3) [OF assms(1)])
  have "?other ! fst (picks i) \<noteq> ?other ! snd (picks i)"
    using nth_eq_iff_index_eq [OF other_agents_props(2) [OF assms(1)] a b] ab by simp
  with fr en show ?thesis
    by (simp add: random_friend_def random_enemy_def)
qed

lemma random_body_ok:
  assumes "3 \<le> n" and "\<forall>i<nat n. valid_pick (picks i) (nat n - 1)"
    and "length cur = nat n" and "i < nat n"
  shows "random_assign_body n picks cur i =
           Inr (cur[i := befriend (random_friend (nat n) picks i) (random_enemy (nat n) picks i)
                           (cur ! i)])"
proof -
  from assms(2,4) have vp: "valid_pick (picks i) (nat n - 1)" by blast
  from random_distinct [of i "nat n" picks, OF assms(4) vp]
  have fr: "random_friend (nat n) picks i < length cur"
    and en: "random_enemy (nat n) picks i < length cur"
    using assms(3) by simp_all
  have len: "\<not> length ([0..<i] @ [i + 1..<nat n]) < 2"
    using other_agents_props(1) [OF assms(4)] assms(1) by linarith
  have "assign cur i (int (random_friend (nat n) picks i)) (int (random_enemy (nat n) picks i))
          = Inr (cur[i := befriend (random_friend (nat n) picks i) (random_enemy (nat n) picks i)
                           (cur ! i)])"
    using assms(3,4) by (intro assign_ok agent_at_nat fr en) simp
  then show ?thesis
    using len
    by (simp only: random_assign_body_def random_sample_def Let_def if_False sum.case
        prod.case random_friend_def random_enemy_def)
qed

lemma random_agent_assignment_ok:
  assumes "3 \<le> n" and "\<forall>i<nat n. valid_pick (picks i) (nat n - 1)" and "length ags = nat n"
  shows "\<exists>res. random_agent_assignment n picks ags = Inr res \<and> length res = nat n \<and>
           (\<forall>i<nat n. res ! i =
              befriend (random_friend (nat n) picks i) (random_enemy (nat n) picks i) (ags ! i))"
  unfolding random_agent_assignment_def
  using assms by (intro for_each_befriend_all random_body_ok)


lemma reset_random:
  "reset ''random'' rand picks env =
     (case random_agent_assignment (n_agents env) picks
             (map (\<lambda>k. create_agent (agent_creator env)
                         (fst (rand k) * fst (grid_size env))
                         (snd (rand k) * snd (grid_size env))
                         (environment.step_size env))
                [0..<nat (n_agents env)]) of
        Inl err \<Rightarrow> Inl err
      | Inr assigned \<Rightarrow> Inr (env\<lparr>agents := assigned\<rparr>))"
  by (simp add: reset_def)

lemma reset_neighbours:
  "reset ''neighbours'' rand picks env =
     (case neighbours_agent_assignment (n_agents env)
             (map (\<lambda>k. create_agent (agent_creator env)
                         (fst (rand k) * fst (grid_size env))
                         (snd (rand k) * snd (grid_size env))
                         (environment.step_size env))
                [0..<nat (n_agents env)]) of
        Inl err \<Rightarrow> Inl err
      | Inr assigned \<Rightarrow> Inr (env\<lparr>agents := assigned\<rparr>))"
  by (simp add: reset_def)

lemma reset_random_ok:
  assumes "3 \<le> n_agents env"
    and "\<forall>i<nat (n_agents env). valid_pick (picks i) (nat (n_agents env) - 1)"
  shows "\<exists>env'. reset ''random'' rand picks env = Inr env' \<and>
           length (agents env') = nat (n_agents env) \<and> relationship_invariant (agents env')"
proof -
  let ?created = "map (\<lambda>k. create_agent (agent_creator env)
                         (fst (rand k) * fst (grid_size env))
                         (snd (rand k) * snd (grid_size env))
                         (environment.step_size env))
                [0..<nat (n_agents env)]"
  have "length ?created = nat (n_agents env)" by simp
  from random_agent_assignment_ok [OF assms this] obtain res where
    res: "random_agent_assignment (n_agents env) picks ?created = Inr res"
      "length res = nat (n_agents env)"
      "\<forall>i<nat (n_agents env). res ! i =
          befriend (random_friend (nat (n_agents env)) picks i)
            (random_enemy (nat (n_agents env)) picks i) (?created ! i)"
    by blast
  have "relationship_invariant res"
  proof (rule relationship_invariantI)
    fix i assume "i < length res"
    then show "res ! i = befriend (random_friend (nat (n_agents env)) picks i)
            (random_enemy (nat (n_agents env)) picks i) (?created ! i)"
      using res(2,3) by simp
  next
    fix i assume "i < length res"
    then have i: "i < nat (n_agents env)" using res(2) by simp
    with assms(2) have "valid_pick (picks i) (nat (n_agents env) - 1)" by blast
    from random_distinct [of i "nat (n_agents env)" picks, OF i this]
    show "random_friend (nat (n_agents env)) picks i < length res \<and>
          random_enemy (nat (n_agents env)) picks i < length res \<and>
          random_friend (nat (n_agents env)) picks i \<noteq> i \<and>
          random_enemy (nat (n_agents env)) picks i \<noteq> i \<and>
          random_friend (nat (n_agents env)) picks i \<noteq> random_enemy (nat (n_agents env)) picks i"
      by (simp add: res(2))
  qed
  with res(1,2) show ?thesis by (simp add: reset_random)
qed

lemma reset_neighbours_ok:
  assumes "3 \<le> n_agents env"
  shows "\<exists>env'. reset ''neighbours'' rand picks env = Inr env' \<and>
           length (agents env') = nat (n_agents env) \<and> relationship_invariant (agents env')"
proof -
  let ?created = "map (\<lambda>k. create_agent (agent_creator env)
                         (fst (rand k) * fst (grid_size env))
                         (snd (rand k) * snd (grid_size env))
                         (environment.step_size env))
                [0..<nat (n_agents env)]"
  have two: "2 \<le> n_agents env" using assms by simp
  have "length ?created = nat (n_agents env)" by simp
  from neighbours_agent_assignment_ok [OF two this] obtain res where
    res: "neighbours_agent_assignment (n_agents env) ?created = Inr res"
      "length res = nat (n_agents env)"
      "\<forall>i<nat (n_agents env). res ! i =
          befriend (neighbour_friend (nat (n_agents env)) i)
            (neighbour_enemy (nat (n_agents env)) i) (?created ! i)"
    by blast
  have three: "3 \<le> nat (n_agents env)" using assms by simp
  have "relationship_invariant res"
  proof (rule relationship_invariantI)
    fix i assume "i < length res"
    then show "res ! i = befriend (neighbour_friend (nat (n_agents env)) i)
            (neighbour_enemy (nat (n_agents env)) i) (?created ! i)"
      using res(2,3) by simp
  next
    fix i assume "i < length res"
    then have i: "i < nat (n_agents env)" using res(2) by simp
    from neighbours_distinct [OF three i]
    show "neighbour_friend (nat (n_agents env)) i < length res \<and>
          neighbour_enemy (nat (n_agents env)) i < length res \<and>
          neighbour_friend (nat (n_agents env)) i \<noteq> i \<and>
          neighbour_enemy (nat (n_agents env)) i \<noteq> i \<and>
          neighbour_friend (nat (n_agents env)) i \<noteq> neighbour_enemy (nat (n_agents env)) i"
      by (simp add: res(2))
  qed
  with res(1,2) show ?thesis by (simp add: reset_neighbours)
qed

lemma reset_empty:
  assumes "n_agents env \<le> 0"
  shows "reset assignment_type rand picks env = Inr (env\<lparr>agents := []\<rparr>)"
  using assms
  by (simp add: reset_def random_agent_assignment_def neighbours_agent_assignment_def)

lemma reset_random_one:
  assumes "n_agents env = 1"
  shows "reset ''random'' rand picks env = Inl ValueError"
  using assms
  by (simp add: reset_random random_agent_assignment_def random_assign_body_def
      random_sample_def)

lemma reset_random_two:
  assumes "n_agents env = 2"
  shows "reset ''random'' rand picks env = Inl ValueError"
proof -
  have "[0..<nat 2] = [0, 1]" by (simp add: upt_rec)
  then show ?thesis
    using assms
    by (simp add: reset_random random_agent_assignment_def random_assign_body_def
      random_sample_def)
qed

lemma reset_neighbours_one:
  assumes "n_agents env = 1"
  shows "reset ''neighbours'' rand picks env = Inl IndexError"
  using assms
  by (simp add: reset_neighbours neighbours_agent_assignment_def neighbours_assign_body_def
      assign_def agent_at_def)

lemma reset_neighbours_two_up:
  assumes "2 \<le> n_agents env"
  shows "\<exists>env'. reset ''neighbours'' rand picks env = Inr env'"
proof -
  let ?created = "map (\<lambda>k. create_agent (agent_creator env)
                         (fst (rand k) * fst (grid_size env))
                         (snd (rand k) * snd (grid_size env))
                         (environment.step_size env))
                [0..<nat (n_agents env)]"
  have "length ?created = nat (n_agents env)" by simp
  from neighbours_agent_assignment_ok [OF assms this] obtain res where
    "neighbours_agent_assignment (n_agents env) ?created = Inr res" by blast
  then show ?thesis by (simp add: reset_neighbours)
qed

subsection \<open>Float64 rounding and the trace of the general case\<close>

lemma pow2_pos: "0 < pow2 k"
  by (simp add: pow2_def)

lemma pow2_powr: "pow2 k = 2 powr (of_int k)"
proof (cases "0 \<le> k")
  case True
  have "(2 :: real) powr (real (nat k)) = 2 ^ nat k"
    by (rule powr_realpow) simp
  moreover have "real (nat k) = of_int k" using True by simp
  ultimately show ?thesis using True by (simp add: pow2_def)
next
  case False
  have "(2 :: real) powr (real (nat (- k))) = 2 ^ nat (- k)"
    by (rule powr_realpow) simp
  moreover have "real (nat (- k)) = - of_int k" using False by simp
  moreover have "(2 :: real) powr (of_int k) = 1 / 2 powr (- of_int k)"
    by (simp add: powr_minus_divide)
  ultimately show ?thesis using False by (simp add: pow2_def)
qed

lemma floor_log2:
  assumes "pow2 k \<le> \<bar>x\<bar>" and "\<bar>x\<bar> < pow2 (k + 1)"
  shows "\<lfloor>log 2 \<bar>x\<bar>\<rfloor> = k"
proof -
  have pos: "0 < \<bar>x\<bar>"
    using assms(1) pow2_pos [of k] by linarith
  have lo: "2 powr (of_int k) \<le> \<bar>x\<bar>"
    using assms(1) by (simp only: pow2_powr)
  have hi: "\<bar>x\<bar> < 2 powr (of_int (k + 1))"
    using assms(2) by (simp only: pow2_powr)
  have "of_int k \<le> log 2 \<bar>x\<bar>"
    using lo pos le_log_iff [of 2 "\<bar>x\<bar>" "of_int k"] by simp
  moreover have "log 2 \<bar>x\<bar> < of_int (k + 1)"
    using hi pos log_less_iff [of 2 "\<bar>x\<bar>" "of_int (k + 1)"] by simp
  ultimately show ?thesis by (intro floor_unique) simp_all
qed

lemma float64_at:
  assumes "pow2 k \<le> \<bar>x\<bar>" and "\<bar>x\<bar> < pow2 (k + 1)"
    and "round_half_even (x / pow2 (k - 52)) = r"
  shows "float64 x = of_int r * pow2 (k - 52)"
proof -
  have "0 < \<bar>x\<bar>" using assms(1) pow2_pos [of k] by linarith
  then have "x \<noteq> 0" by simp
  then show ?thesis
    unfolding float64_def Let_def floor_log2 [OF assms(1,2)] assms(3) by simp
qed

lemma trace_dy: "fsub 60 10 = 50"
proof -
  have a: "pow2 5 \<le> \<bar>60 - 10 :: real\<bar>" by (simp add: pow2_def)
  have b: "\<bar>60 - 10 :: real\<bar> < pow2 (5 + 1)" by (simp add: pow2_def)
  have c: "round_half_even ((60 - 10) / pow2 (5 - 52)) = 7036874417766400"
    by (simp add: pow2_def round_half_even_def)
  from float64_at [OF a b c] show ?thesis by (simp add: fsub_def pow2_def)
qed

lemma trace_dx: "fsub (7036874417766401 / 140737488355328) 50 = (1 / 140737488355328)"
proof -
  have a: "pow2 (- 47) \<le> \<bar>(7036874417766401 / 140737488355328) - 50 :: real\<bar>" by (simp add: pow2_def)
  have b: "\<bar>(7036874417766401 / 140737488355328) - 50 :: real\<bar> < pow2 ((- 47) + 1)" by (simp add: pow2_def)
  have c: "round_half_even (((7036874417766401 / 140737488355328) - 50) / pow2 ((- 47) - 52)) = 4503599627370496"
    by (simp add: pow2_def round_half_even_def)
  from float64_at [OF a b c] show ?thesis by (simp add: fsub_def pow2_def)
qed

lemma trace_m1: "fdiv 50 (1 / 140737488355328) = 7036874417766400"
proof -
  have a: "pow2 52 \<le> \<bar>50 / (1 / 140737488355328) :: real\<bar>" by (simp add: pow2_def)
  have b: "\<bar>50 / (1 / 140737488355328) :: real\<bar> < pow2 (52 + 1)" by (simp add: pow2_def)
  have c: "round_half_even ((50 / (1 / 140737488355328)) / pow2 (52 - 52)) = 7036874417766400"
    by (simp add: pow2_def round_half_even_def)
  from float64_at [OF a b c] show ?thesis by (simp add: fdiv_def pow2_def)
qed

lemma trace_m2: "fdiv (- 1) 7036874417766400 = (- 5764607523034235 / 40564819207303340847894502572032)"
proof -
  have a: "pow2 (- 53) \<le> \<bar>(- 1) / 7036874417766400 :: real\<bar>" by (simp add: pow2_def)
  have b: "\<bar>(- 1) / 7036874417766400 :: real\<bar> < pow2 ((- 53) + 1)" by (simp add: pow2_def)
  have c: "round_half_even (((- 1) / 7036874417766400) / pow2 ((- 53) - 52)) = (- 5764607523034235)"
    by (simp add: pow2_def round_half_even_def)
  from float64_at [OF a b c] show ?thesis by (simp add: fdiv_def pow2_def)
qed

lemma trace_m1e0: "fmul 7036874417766400 (7036874417766401 / 140737488355328) = 351843720888320064"
proof -
  have a: "pow2 58 \<le> \<bar>7036874417766400 * (7036874417766401 / 140737488355328) :: real\<bar>" by (simp add: pow2_def)
  have b: "\<bar>7036874417766400 * (7036874417766401 / 140737488355328) :: real\<bar> < pow2 (58 + 1)" by (simp add: pow2_def)
  have c: "round_half_even ((7036874417766400 * (7036874417766401 / 140737488355328)) / pow2 (58 - 52)) = 5497558138880001"
    by (simp add: pow2_def round_half_even_def)
  from float64_at [OF a b c] show ?thesis by (simp add: fmul_def pow2_def)
qed

lemma trace_b1: "fsub 60 351843720888320064 = (- 351843720888320000)"
proof -
  have a: "pow2 58 \<le> \<bar>60 - 351843720888320064 :: real\<bar>" by (simp add: pow2_def)
  have b: "\<bar>60 - 351843720888320064 :: real\<bar> < pow2 (58 + 1)" by (simp add: pow2_def)
  have c: "round_half_even ((60 - 351843720888320064) / pow2 (58 - 52)) = (- 5497558138880000)"
    by (simp add: pow2_def round_half_even_def)
  from float64_at [OF a b c] show ?thesis by (simp add: fsub_def pow2_def)
qed

lemma trace_m2p0: "fmul (- 5764607523034235 / 40564819207303340847894502572032) 30 = (- 5404319552844595 / 1267650600228229401496703205376)"
proof -
  have a: "pow2 (- 48) \<le> \<bar>(- 5764607523034235 / 40564819207303340847894502572032) * 30 :: real\<bar>" by (simp add: pow2_def)
  have b: "\<bar>(- 5764607523034235 / 40564819207303340847894502572032) * 30 :: real\<bar> < pow2 ((- 48) + 1)" by (simp add: pow2_def)
  have c: "round_half_even (((- 5764607523034235 / 40564819207303340847894502572032) * 30) / pow2 ((- 48) - 52)) = (- 5404319552844595)"
    by (simp add: pow2_def round_half_even_def)
  from float64_at [OF a b c] show ?thesis by (simp add: fmul_def pow2_def)
qed

lemma trace_b2: "fsub 40 (- 5404319552844595 / 1267650600228229401496703205376) = (5629499534213121 / 140737488355328)"
proof -
  have a: "pow2 5 \<le> \<bar>40 - (- 5404319552844595 / 1267650600228229401496703205376) :: real\<bar>" by (simp add: pow2_def)
  have b: "\<bar>40 - (- 5404319552844595 / 1267650600228229401496703205376) :: real\<bar> < pow2 (5 + 1)" by (simp add: pow2_def)
  have c: "round_half_even ((40 - (- 5404319552844595 / 1267650600228229401496703205376)) / pow2 (5 - 52)) = 5629499534213121"
    by (simp add: pow2_def round_half_even_def)
  from float64_at [OF a b c] show ?thesis by (simp add: fsub_def pow2_def)
qed

lemma trace_num: "fsub (- 351843720888320000) (5629499534213121 / 140737488355328) = (- 351843720888320064)"
proof -
  have a: "pow2 58 \<le> \<bar>(- 351843720888320000) - (5629499534213121 / 140737488355328) :: real\<bar>" by (simp add: pow2_def)
  have b: "\<bar>(- 351843720888320000) - (5629499534213121 / 140737488355328) :: real\<bar> < pow2 (58 + 1)" by (simp add: pow2_def)
  have c: "round_half_even (((- 351843720888320000) - (5629499534213121 / 140737488355328)) / pow2 (58 - 52)) = (- 5497558138880001)"
    by (simp add: pow2_def round_half_even_def)
  from float64_at [OF a b c] show ?thesis by (simp add: fsub_def pow2_def)
qed

lemma trace_den: "fsub (- 5764607523034235 / 40564819207303340847894502572032) 7036874417766400 = (- 7036874417766400)"
proof -
  have a: "pow2 52 \<le> \<bar>(- 5764607523034235 / 40564819207303340847894502572032) - 7036874417766400 :: real\<bar>" by (simp add: pow2_def)
  have b: "\<bar>(- 5764607523034235 / 40564819207303340847894502572032) - 7036874417766400 :: real\<bar> < pow2 (52 + 1)" by (simp add: pow2_def)
  have c: "round_half_even (((- 5764607523034235 / 40564819207303340847894502572032) - 7036874417766400) / pow2 (52 - 52)) = (- 7036874417766400)"
    by (simp add: pow2_def round_half_even_def)
  from float64_at [OF a b c] show ?thesis by (simp add: fsub_def pow2_def)
qed

lemma trace_x: "fdiv (- 351843720888320064) (- 7036874417766400) = (7036874417766401 / 140737488355328)"
proof -
  have a: "pow2 5 \<le> \<bar>(- 351843720888320064) / (- 7036874417766400) :: real\<bar>" by (simp add: pow2_def)
  have b: "\<bar>(- 351843720888320064) / (- 7036874417766400) :: real\<bar> < pow2 (5 + 1)" by (simp add: pow2_def)
  have c: "round_half_even (((- 351843720888320064) / (- 7036874417766400)) / pow2 (5 - 52)) = 7036874417766401"
    by (simp add: pow2_def round_half_even_def)
  from float64_at [OF a b c] show ?thesis by (simp add: fdiv_def pow2_def)
qed

lemma trace_m1x: "fmul 7036874417766400 (7036874417766401 / 140737488355328) = 351843720888320064"
proof -
  have a: "pow2 58 \<le> \<bar>7036874417766400 * (7036874417766401 / 140737488355328) :: real\<bar>" by (simp add: pow2_def)
  have b: "\<bar>7036874417766400 * (7036874417766401 / 140737488355328) :: real\<bar> < pow2 (58 + 1)" by (simp add: pow2_def)
  have c: "round_half_even ((7036874417766400 * (7036874417766401 / 140737488355328)) / pow2 (58 - 52)) = 5497558138880001"
    by (simp add: pow2_def round_half_even_def)
  from float64_at [OF a b c] show ?thesis by (simp add: fmul_def pow2_def)
qed

lemma trace_y: "fadd 351843720888320064 (- 351843720888320000) = 64"
proof -
  have a: "pow2 6 \<le> \<bar>351843720888320064 + (- 351843720888320000) :: real\<bar>" by (simp add: pow2_def)
  have b: "\<bar>351843720888320064 + (- 351843720888320000) :: real\<bar> < pow2 (6 + 1)" by (simp add: pow2_def)
  have c: "round_half_even ((351843720888320064 + (- 351843720888320000)) / pow2 (6 - 52)) = 4503599627370496"
    by (simp add: pow2_def round_half_even_def)
  from float64_at [OF a b c] show ?thesis by (simp add: fadd_def pow2_def)
qed

lemma general_case_trace:
  "general_case_float64 (30, 40) (50, 10) (7036874417766401 / 140737488355328, 60)
     = (7036874417766401 / 140737488355328, 64)"
  by (simp only: general_case_float64_def Let_def fst_conv snd_conv
      trace_dy trace_dx trace_m1 trace_m2 trace_m1e0 trace_b1 trace_m2p0 trace_b2
      trace_num trace_den trace_x trace_m1x trace_y)

subsection \<open>The claims\<close>

text \<open>
  The travel primitive on points. For a step size above zero it returns the current
  position when its distance to the destination is zero, and otherwise the point reached
  by moving the smaller of that distance and the step size along the unit vector towards
  the destination; the result is at most one step size from the current position and no
  further from the destination than the current position.
\<close>

lemma travel_primitive:
  assumes "0 < s"
  shows "calculate_point_on_vector current s destination =
           (if point_distance current destination = 0 then current
            else vadd current (smul (min (point_distance current destination) s)
                   (vdiv (vsub destination current) (point_distance current destination)))) \<and>
         point_distance (calculate_point_on_vector current s destination) current \<le> s \<and>
         point_distance (calculate_point_on_vector current s destination) destination
           \<le> point_distance current destination"
proof -
  have "calculate_point_on_vector current s destination =
           (if point_distance current destination = 0 then current
            else vadd current (smul (min (point_distance current destination) s)
                   (vdiv (vsub destination current) (point_distance current destination))))"
    using cpv_zero [of current destination s] cpv_toward [of current destination s]
    by (simp add: point_distance_def)
  then show ?thesis
    using cpv_step_bound [OF assms] cpv_no_overshoot [OF assms] by blast
qed

text \<open>
  Claim C1 against the code. The bounds are claimed for every agent and every tick. Three
  \<^verbatim>\<open>HidingAgent1\<close> agents with step size 1 and distance 3 stand at (0,0), (7,0) and (7,0);
  every agent has a friend and an enemy that differ from it and from each other. One step
  of the environment returns normally, and the first agent, whose friend and enemy
  snapshots coincide, ends at \<^verbatim>\<open>(nan, nan)\<close>: it has no distance to its old position that
  the step size could bound. The other two agents move one unit.
\<close>

theorem step_bound_lost_on_coincident_snapshots:
  "relationship_invariant coincident_three \<and>
   map position coincident_three = [Vec (0, 0), Vec (7, 0), Vec (7, 0)] \<and>
   map agent.step_size coincident_three = [1, 1, 1] \<and>
   (case step (Environment_init 3 1 (100, 100) (HidingAgent1Creator 3)
                 \<lparr>agents := coincident_three\<rparr>) of
      Inl err \<Rightarrow> []
    | Inr env' \<Rightarrow> map position (agents env'))
     = [NaN, Vec (6, 0), Vec (8, 0)]"
proof -
  have up: "[0..<3] = [0, 1, 2 :: nat]"
    by (simp add: upt_rec)
  have inv: "relationship_invariant coincident_three"
    by (simp add: relationship_invariant_def coincident_three_def befriend_def Agent_init_def up)
  have pos: "map position coincident_three = [Vec (0, 0), Vec (7, 0), Vec (7, 0)]"
    by (simp add: coincident_three_def befriend_def Agent_init_def)
  have st: "map agent.step_size coincident_three = [1, 1, 1]"
    by (simp add: coincident_three_def befriend_def Agent_init_def)
  have run: "(case step (Environment_init 3 1 (100, 100) (HidingAgent1Creator 3)
                 \<lparr>agents := coincident_three\<rparr>) of
      Inl err \<Rightarrow> []
    | Inr env' \<Rightarrow> map position (agents env'))
     = [NaN, Vec (6, 0), Vec (8, 0)]"
    by (simp add: step_def step_in_order_def coincident_three_def befriend_def Agent_init_def up
        update_state_def move_def get_new_position_def new_position_of_def
        hiding1_get_destination_def calculate_point_on_vector_def Let_def
        vsub_def vadd_def smul_def vdiv_def norm2_x_axis)
  from inv pos st run show ?thesis by blast
qed

text \<open>
  Claim C2. When every agent has its friend and its enemy, one step gives the same agents
  whatever the order in which each of the two passes visits them: every agent ends with
  the snapshots and the position computed from the positions before the step. The step of
  the environment, which visits in list order, is one such run.
\<close>

theorem step_order_independent:
  assumes "wired (agents env)"
    and "distinct order1" and "set order1 = {..<length (agents env)}"
    and "distinct order2" and "set order2 = {..<length (agents env)}"
  shows "step_in_order order1 order2 (agents env)
           = Inr (map (simultaneous (agents env)) (agents env)) \<and>
         step env = Inr (env\<lparr>agents := map (simultaneous (agents env)) (agents env)\<rparr>)"
proof -
  have "set [0..<length (agents env)] = {..<length (agents env)}" by auto
  then have "step_in_order [0..<length (agents env)] [0..<length (agents env)] (agents env)
               = Inr (map (simultaneous (agents env)) (agents env))"
    using assms(1) by (intro step_in_order_simultaneous) simp_all
  then have "step env = Inr (env\<lparr>agents := map (simultaneous (agents env)) (agents env)\<rparr>)"
    by (simp add: step_def)
  with step_in_order_simultaneous [OF assms(1,3,4,5)] show ?thesis by simp
qed

theorem step_order_independent_witness:
  "wired line_of_three \<and>
   step_in_order [2, 0, 1] [1, 2, 0] line_of_three
     = Inr (map (simultaneous line_of_three) line_of_three) \<and>
   step (Environment_init 3 1 (100, 100) ProtectiveAgent1Creator \<lparr>agents := line_of_three\<rparr>)
     = Inr (Environment_init 3 1 (100, 100) ProtectiveAgent1Creator
              \<lparr>agents := map (simultaneous line_of_three) line_of_three\<rparr>) \<and>
   map position (map (simultaneous line_of_three) line_of_three)
     = [Vec (1, 0), Vec (5, 0), Vec (9, 0)]"
proof -
  let ?env = "Environment_init 3 1 (100, 100) ProtectiveAgent1Creator \<lparr>agents := line_of_three\<rparr>"
  have a: "agents ?env = line_of_three" by simp
  have len: "length line_of_three = 3" by (simp add: line_of_three_def)
  have w: "wired (agents ?env)"
    by (simp add: line_of_three_def wired_def befriend_def Agent_init_def)
  have s: "{..<length (agents ?env)} = {0, 1, 2 :: nat}"
    unfolding a len by auto
  have o1: "distinct [2, 0, 1 :: nat]" "set [2, 0, 1 :: nat] = {..<length (agents ?env)}"
    unfolding s by auto
  have o2: "distinct [1, 2, 0 :: nat]" "set [1, 2, 0 :: nat] = {..<length (agents ?env)}"
    unfolding s by auto
  have pos: "map position (map (simultaneous line_of_three) line_of_three)
     = [Vec (1, 0), Vec (5, 0), Vec (9, 0)]"
    by (simp add: line_of_three_def simultaneous_def befriend_def Agent_init_def
        new_position_of_def protective1_get_destination_def calculate_point_on_vector_def
        Let_def vsub_def smul_def vdiv_def norm2_x_axis)
  from step_order_independent [OF w o1 o2] w pos show ?thesis
    unfolding a by simp
qed



text \<open>
  The general case in exact arithmetic. When friend and enemy differ in both coordinates
  and the agent is between them, the formulas of lines 198 to 207, evaluated without
  rounding, give a point on the line through friend and enemy whose difference from the
  agent's position is orthogonal to that line.
\<close>

lemma general_branch_in_exact_arithmetic:
  assumes "fst e \<noteq> fst f" and "snd e \<noteq> snd f"
    and "\<not> behind_friend p f e" and "\<not> behind_enemy p f e"
    and "q = protective2_get_destination p f e"
  shows "(fst q - fst f) * (snd e - snd f) = (snd q - snd f) * (fst e - fst f) \<and>
         (fst q - fst p) * (fst e - fst f) + (snd q - snd p) * (snd e - snd f) = 0"
proof -
  have "q = line_intersection p f e"
    using assms(3-5) by (simp add: protective2_get_destination_def)
  with line_intersection_general [OF assms(1,2)] show ?thesis by blast
qed

text \<open>
  Claim C4 against the code. With position (30,40), friend (50,10) and enemy
  (50 + 2^-47, 60), whose x coordinate is the float64 number next above 50, the subtractions
  that lines 185 and 192 test are not zero and both obtuse tests are false, so the general
  case is taken. In float64 arithmetic it returns (50 + 2^-47, 64): the difference of that
  point from the position is far from orthogonal to the line, while the formulas in exact
  arithmetic give a point within one unit of height 40.
\<close>

theorem general_case_float64_misses_foot:
  "fsub (7036874417766401 / 140737488355328) 50 \<noteq> 0 \<and>
   fsub 60 10 \<noteq> 0 \<and>
   \<not> behind_friend (30, 40) (50, 10) (7036874417766401 / 140737488355328, 60) \<and>
   \<not> behind_enemy (30, 40) (50, 10) (7036874417766401 / 140737488355328, 60) \<and>
   general_case_float64 (30, 40) (50, 10) (7036874417766401 / 140737488355328, 60)
     = (7036874417766401 / 140737488355328, 64) \<and>
   1200 < (fst (general_case_float64 (30, 40) (50, 10)
                  (7036874417766401 / 140737488355328, 60)) - 30)
            * (7036874417766401 / 140737488355328 - 50)
          + (snd (general_case_float64 (30, 40) (50, 10)
                  (7036874417766401 / 140737488355328, 60)) - 40) * (60 - 10) \<and>
   \<bar>snd (line_intersection (30, 40) (50, 10) (7036874417766401 / 140737488355328, 60)) - 40\<bar>
     < 1"
proof -
  have dx: "fsub (7036874417766401 / 140737488355328) 50 \<noteq> 0"
    by (simp add: trace_dx)
  have dy: "fsub 60 10 \<noteq> 0"
    by (simp add: trace_dy)
  have bf: "\<not> behind_friend (30, 40) (50, 10) (7036874417766401 / 140737488355328, 60)"
    unfolding behind_friend_def norm2_sq vsub_def by (simp add: power2_eq_square)
  have be: "\<not> behind_enemy (30, 40) (50, 10) (7036874417766401 / 140737488355328, 60)"
    unfolding behind_enemy_def norm2_sq vsub_def by (simp add: power2_eq_square)
  have orth: "1200 < (fst (general_case_float64 (30, 40) (50, 10)
                  (7036874417766401 / 140737488355328, 60)) - 30)
            * (7036874417766401 / 140737488355328 - 50)
          + (snd (general_case_float64 (30, 40) (50, 10)
                  (7036874417766401 / 140737488355328, 60)) - 40) * (60 - 10)"
    by (simp add: general_case_trace)
  have exact: "\<bar>snd (line_intersection (30, 40) (50, 10)
                  (7036874417766401 / 140737488355328, 60)) - 40\<bar> < 1"
    by (simp add: line_intersection_def Let_def)
  from dx dy bf be general_case_trace orth exact show ?thesis by blast
qed

text \<open>
  Claim C5, as stated, fails: in the horizontal branch the y component of the destination
  is not the x component of the agent's position. At friend (0,0), enemy (10,0) and
  position (3,4) the destination is (4,0).
\<close>

theorem horizontal_branch_counterexample:
  "fst (10 :: real, 0 :: real) \<noteq> fst (0 :: real, 0 :: real) \<and>
   snd (10 :: real, 0 :: real) = snd (0 :: real, 0 :: real) \<and>
   \<not> behind_friend (3, 4) (0, 0) (10, 0) \<and>
   \<not> behind_enemy (3, 4) (0, 0) (10, 0) \<and>
   protective2_get_destination (3, 4) (0, 0) (10, 0) = (4, 0) \<and>
   snd (protective2_get_destination (3, 4) (0, 0) (10, 0)) \<noteq> fst (3 :: real, 4 :: real)"
  by (simp add: protective2_get_destination_def line_intersection_def behind_friend_def
      behind_enemy_def norm2_sq vsub_def)

text \<open>
  Claim C5, amended. In the horizontal branch (friend and enemy share the y coordinate
  but not the x coordinate, the agent between them) the y component of the destination of
  \<^verbatim>\<open>ProtectiveAgent2\<close> is the y coordinate of the enemy, which is that of the friend.
\<close>

theorem horizontal_branch_y:
  assumes "fst e \<noteq> fst f" and "snd e = snd f"
    and "\<not> behind_friend p f e" and "\<not> behind_enemy p f e"
  shows "snd (protective2_get_destination p f e) = snd e"
  using assms by (simp add: protective2_get_destination_def line_intersection_def)

theorem horizontal_branch_y_witness:
  "snd (protective2_get_destination (3, 4) (0, 0) (10, 0)) = snd (10 :: real, 0 :: real)"
proof -
  have h1: "fst (10 :: real, 0 :: real) \<noteq> fst (0 :: real, 0 :: real)" by simp
  have h2: "snd (10 :: real, 0 :: real) = snd (0 :: real, 0 :: real)" by simp
  have h3: "\<not> behind_friend (3, 4) (0, 0) (10, 0)"
    by (simp add: behind_friend_def norm2_sq vsub_def)
  have h4: "\<not> behind_enemy (3, 4) (0, 0) (10, 0)"
    by (simp add: behind_enemy_def norm2_sq vsub_def)
  from horizontal_branch_y [OF h1 h2 h3 h4] show ?thesis .
qed

text \<open>
  Claim C6 against the code. With identical friend and enemy snapshots the destination of
  \<^verbatim>\<open>HidingAgent1\<close> is \<^verbatim>\<open>(nan, nan)\<close>, not the friend's position: nothing is raised, but
  the normalisation is not guarded as it is in \<^verbatim>\<open>_calculate_point_on_vector\<close>.
\<close>

theorem hiding1_coincident_is_nan:
  "hiding1_get_destination distance f f = NaN \<and>
   hiding1_get_destination 3 (1, 1) (1, 1) \<noteq> Vec (1, 1)"
  by (simp add: hiding1_get_destination_def vsub_def norm2_def)

text \<open>
  Claim C7, as stated, fails: with friend (0,0), enemy (10,0) and distance 3 the selected
  destination is not the flipped candidate (3,0).
\<close>

theorem fixed_offset_counterexample:
  "hiding1_get_destination 3 (0, 0) (10, 0) \<noteq> Vec (3, 0)"
  by (simp add: hiding1_get_destination_def Let_def vsub_def vadd_def smul_def vdiv_def
      norm2_x_axis)

text \<open>
  Claim C7, amended. With friend (0,0), enemy (10,0) and distance 3 the candidate is
  (-3,0); its distance to the enemy is 13 and the distance from friend to enemy is 10, so
  the candidate is kept, and the selected destination is (-3,0).
\<close>

theorem fixed_offset_selected:
  "vadd (0, 0) (smul 3 (vdiv (vsub (0, 0) (10, 0)) (norm2 (vsub (0, 0) (10, 0))))) = (- 3, 0) \<and>
   point_distance (10, 0) (- 3, 0) = 13 \<and>
   point_distance (0, 0) (10, 0) = 10 \<and>
   hiding1_get_destination 3 (0, 0) (10, 0) = Vec (- 3, 0)"
  by (simp add: hiding1_get_destination_def Let_def vsub_def vadd_def smul_def vdiv_def
      norm2_x_axis point_distance_def)

text \<open>
  Claim C8. A reset with at least three agents and the assignment type \<^verbatim>\<open>random\<close> or
  \<^verbatim>\<open>neighbours\<close> returns normally with that many agents, and every agent then has a friend
  and an enemy that differ from the agent and from each other. For \<^verbatim>\<open>random\<close> this holds
  for every outcome of the sampling.
\<close>

theorem reset_relationship_invariant:
  assumes "3 \<le> n_agents env"
    and "assignment_type = ''random'' \<or> assignment_type = ''neighbours''"
    and "\<forall>i<nat (n_agents env). valid_pick (picks i) (nat (n_agents env) - 1)"
  shows "\<exists>env'. reset assignment_type rand picks env = Inr env' \<and>
           length (agents env') = nat (n_agents env) \<and> relationship_invariant (agents env')"
  using assms(2) reset_random_ok [OF assms(1,3)] reset_neighbours_ok [OF assms(1)]
  by blast

theorem reset_relationship_invariant_witness:
  "(\<exists>env'. reset ''random'' fixed_rand fixed_picks
              (Environment_init 3 10 (100, 100) ProtectiveAgent1Creator) = Inr env' \<and>
           length (agents env') = 3 \<and> relationship_invariant (agents env')) \<and>
   (\<exists>env'. reset ''neighbours'' fixed_rand fixed_picks
              (Environment_init 3 10 (100, 100) ProtectiveAgent1Creator) = Inr env' \<and>
           length (agents env') = 3 \<and> relationship_invariant (agents env')) \<and>
   map (\<lambda>a. (friend a, enemy a))
     (case reset ''random'' fixed_rand fixed_picks
             (Environment_init 3 10 (100, 100) ProtectiveAgent1Creator) of
        Inr env' \<Rightarrow> agents env' | Inl err \<Rightarrow> [])
     = [(Some 1, Some 2), (Some 0, Some 2), (Some 0, Some 1)] \<and>
   map (\<lambda>a. (friend a, enemy a))
     (case reset ''neighbours'' fixed_rand fixed_picks
             (Environment_init 3 10 (100, 100) ProtectiveAgent1Creator) of
        Inr env' \<Rightarrow> agents env' | Inl err \<Rightarrow> [])
     = [(Some 2, Some 1), (Some 0, Some 2), (Some 1, Some 0)]"
proof -
  let ?env = "Environment_init 3 10 (100, 100) ProtectiveAgent1Creator"
  have n: "n_agents ?env = 3" by (simp add: Environment_init_def)
  have h1: "3 \<le> n_agents ?env" by (simp add: n)
  have h3: "\<forall>i<nat (n_agents ?env). valid_pick (fixed_picks i) (nat (n_agents ?env) - 1)"
    by (simp add: n valid_pick_def fixed_picks_def)
  have up: "[0..<3] = [0, 1, 2 :: nat]" by (simp add: upt_rec)
  have r: "map (\<lambda>a. (friend a, enemy a))
     (case reset ''random'' fixed_rand fixed_picks ?env of
        Inr env' \<Rightarrow> agents env' | Inl err \<Rightarrow> [])
     = [(Some 1, Some 2), (Some 0, Some 2), (Some 0, Some 1)]"
    by (simp add: reset_random Environment_init_def up random_agent_assignment_def
        random_assign_body_def random_sample_def fixed_picks_def assign_def agent_at_def
        Agent_init_def upt_rec)
  have nb: "map (\<lambda>a. (friend a, enemy a))
     (case reset ''neighbours'' fixed_rand fixed_picks ?env of
        Inr env' \<Rightarrow> agents env' | Inl err \<Rightarrow> [])
     = [(Some 2, Some 1), (Some 0, Some 2), (Some 1, Some 0)]"
    by (simp add: reset_neighbours Environment_init_def up neighbours_agent_assignment_def
        neighbours_assign_body_def assign_def agent_at_def Agent_init_def)
  from reset_relationship_invariant [OF h1 _ h3, of "''random''" fixed_rand]
    reset_relationship_invariant [OF h1 _ h3, of "''neighbours''" fixed_rand] r nb
  show ?thesis by (simp add: n)
qed

text \<open>
  Claim C9, as stated, fails: an environment constructed with step size -1 and a creator
  with distance -20 is reset with two agents and the assignment type \<^verbatim>\<open>neighbours\<close>
  without any error, and each agent gets the other one as both friend and enemy.
\<close>

theorem reset_accepts_invalid_counterexample:
  "reset ''neighbours'' fixed_rand fixed_picks
       (Environment_init 2 (- 1) (100, 100) (HidingAgent1Creator (- 20)))
     = Inr \<lparr>n_agents = 2, step_size = - 1, grid_size = (100, 100),
            agent_creator = HidingAgent1Creator (- 20),
            agents =
              [\<lparr>cls = HidingAgent1 (- 20), position = Vec (50, 25), step_size = - 1,
                friend = Some 1, enemy = Some 1,
                friend_position = None, enemy_position = None\<rparr>,
               \<lparr>cls = HidingAgent1 (- 20), position = Vec (50, 25), step_size = - 1,
                friend = Some 0, enemy = Some 0,
                friend_position = None, enemy_position = None\<rparr>]\<rparr>"
proof -
  have up: "[0..<2] = [0, 1 :: nat]" by (simp add: upt_rec)
  show ?thesis
    by (simp add: reset_neighbours Environment_init_def up neighbours_agent_assignment_def
        neighbours_assign_body_def assign_def agent_at_def Agent_init_def fixed_rand_def)
qed

text \<open>
  Claim C9, amended. No parameter is validated: for every agent count, step size, grid and
  creator, a reset of the constructed environment raises only where the assignment itself
  cannot be carried out, which is ValueError for \<^verbatim>\<open>random\<close> with one or two agents and
  IndexError for \<^verbatim>\<open>neighbours\<close> with one agent; in every other case it returns normally.
\<close>

theorem reset_raises_exactly:
  assumes "3 \<le> n \<Longrightarrow> \<forall>i<nat n. valid_pick (picks i) (nat n - 1)"
  shows "(if n = 1 \<or> n = 2
            then reset ''random'' rand picks (Environment_init n s g c) = Inl ValueError
            else \<not> isl (reset ''random'' rand picks (Environment_init n s g c))) \<and>
         (if n = 1
            then reset ''neighbours'' rand picks (Environment_init n s g c) = Inl IndexError
            else \<not> isl (reset ''neighbours'' rand picks (Environment_init n s g c)))"
proof -
  let ?env = "Environment_init n s g c"
  have n: "n_agents ?env = n" by (simp add: Environment_init_def)
  consider "n \<le> 0" | "n = 1" | "n = 2" | "3 \<le> n"
    by linarith
  then show ?thesis
  proof cases
    case 1
    have "n_agents ?env \<le> 0" unfolding n by (rule 1)
    from reset_empty [OF this] 1 show ?thesis by simp
  next
    case 2
    have e: "n_agents ?env = 1" unfolding n by (rule 2)
    from reset_random_one [OF e] reset_neighbours_one [OF e] 2 show ?thesis by simp
  next
    case 3
    have e: "n_agents ?env = 2" unfolding n by (rule 3)
    then have "2 \<le> n_agents ?env" by simp
    from reset_neighbours_two_up [OF this, of rand picks] reset_random_two [OF e] 3
    show ?thesis by auto
  next
    case 4
    have three: "3 \<le> n_agents ?env" unfolding n by (rule 4)
    have "\<forall>i<nat (n_agents ?env). valid_pick (picks i) (nat (n_agents ?env) - 1)"
      using assms [OF 4] by (simp add: n)
    from reset_random_ok [OF three this, of rand] reset_neighbours_ok [OF three, of rand picks] 4
    show ?thesis by auto
  qed
qed

theorem reset_raises_exactly_witness:
  "reset ''random'' fixed_rand fixed_picks
       (Environment_init 2 (- 1) (100, 100) (HidingAgent1Creator (- 20))) = Inl ValueError \<and>
   \<not> isl (reset ''neighbours'' fixed_rand fixed_picks
       (Environment_init 2 (- 1) (100, 100) (HidingAgent1Creator (- 20)))) \<and>
   \<not> isl (reset ''random'' fixed_rand fixed_picks
       (Environment_init 3 (- 1) (100, 100) (HidingAgent1Creator (- 20)))) \<and>
   \<not> isl (reset ''neighbours'' fixed_rand fixed_picks
       (Environment_init 3 (- 1) (100, 100) (HidingAgent1Creator (- 20))))"
proof -
  have p2: "3 \<le> (2 :: int) \<Longrightarrow> \<forall>i<nat 2. valid_pick (fixed_picks i) (nat 2 - 1)"
    by simp
  have p3: "3 \<le> (3 :: int) \<Longrightarrow> \<forall>i<nat 3. valid_pick (fixed_picks i) (nat 3 - 1)"
    by (simp add: valid_pick_def fixed_picks_def)
  from reset_raises_exactly [OF p2, of fixed_rand "- 1" "(100, 100)" "HidingAgent1Creator (- 20)"]
    reset_raises_exactly [OF p3, of fixed_rand "- 1" "(100, 100)" "HidingAgent1Creator (- 20)"]
  show ?thesis by simp
qed

text \<open>
  Claim C10. For different friend and enemy snapshots and a distance above zero, the
  destination of \<^verbatim>\<open>HidingAgent1\<close> is the friend plus the distance along the unit vector
  from enemy to friend; that point is further from the enemy than the friend is, by exactly
  the distance, so the flipped point is never returned.
\<close>

theorem hiding1_never_flips:
  assumes "f \<noteq> e" and "0 < distance"
  shows "hiding1_get_destination distance f e
           = Vec (vadd f (smul distance (vdiv (vsub f e) (norm2 (vsub f e))))) \<and>
         point_distance e (vadd f (smul distance (vdiv (vsub f e) (norm2 (vsub f e)))))
           = point_distance f e + distance"
proof -
  have nz: "norm2 (vsub f e) \<noteq> 0"
    using assms(1) by (simp add: norm2_vsub_eq_0)
  have far: "\<not> norm2 (vsub f e)
      > norm2 (vsub e (vadd f (smul distance (vdiv (vsub f e) (norm2 (vsub f e))))))"
    using assms(2) by (simp add: hiding1_candidate_distance [OF assms])
  show ?thesis
    using nz far hiding1_candidate_distance [OF assms]
    by (simp add: hiding1_get_destination_def Let_def point_distance_def)
qed

theorem hiding1_never_flips_witness:
  "(1 :: real, 1 :: real) \<noteq> (1, 5) \<and> (0 :: real) < 2 \<and>
   hiding1_get_destination 2 (1, 1) (1, 5) = Vec (1, - 1) \<and>
   point_distance (1, 5) (1, - 1) = point_distance (1, 1) (1, 5) + 2"
proof -
  have h1: "(1 :: real, 1 :: real) \<noteq> (1, 5)" by simp
  have h2: "(0 :: real) < 2" by simp
  have c: "vadd (1, 1) (smul 2 (vdiv (vsub (1, 1) (1, 5)) (norm2 (vsub (1, 1) (1, 5))))) = (1, - 1)"
    by (simp add: vsub_def vadd_def smul_def vdiv_def norm2_y_axis)
  from hiding1_never_flips [OF h1 h2] show ?thesis by (simp add: c)
qed

end
